theory Spec2Isabelle
  imports Main
begin

section \<open>Data model (src/types.ts, constants, src/App.tsx)\<close>

datatype JobStatus = Pending | Processing | Completed | Failed

datatype InputType = TextToVideo | ImageToVideo | TextToImage

datatype Provider = gemini | sora | kling | minimax | deepai | azure

text \<open>
  The optional \<open>image\<close> of a job. The source field \<open>name\<close> is \<open>fileName\<close> here.
\<close>

record job_image =
  base64 :: string
  mimeType :: string
  fileName :: string

text \<open>
  \<open>JobTemplate = Omit<Job, 'id' | 'status' | 'retryCount'>\<close>: what the input form hands to
  \<open>handleAddJobs\<close>. The form (\<open>createDefaultJob\<close>, \<open>handleFileChange\<close>) builds templates from
  these six fields only, so the optional \<open>resultUrl\<close>, \<open>resultUrls\<close> and \<open>error\<close> are absent
  on every template. The source field \<open>image\<close> is \<open>jobImage\<close> here (\<open>image\<close> is a constant
  of HOL).
\<close>

record JobTemplate =
  prompt :: string
  inputType :: InputType
  model :: string
  aspectRatio :: string
  outputs :: int
  jobImage :: "job_image option"

text \<open>
  \<open>interface Job\<close>. The source field \<open>id\<close> is \<open>jobId\<close> here (\<open>id\<close> is a constant of HOL).
  An optional field is an \<open>option\<close>; \<open>undefined\<close> is \<open>None\<close>.
\<close>

record Job = JobTemplate +
  jobId :: string
  status :: JobStatus
  retryCount :: nat
  resultUrl :: "string option"
  resultUrls :: "string list option"
  error :: "string option"

text \<open>An entry of \<open>VIDEO_MODELS\<close> or \<open>IMAGE_MODELS\<close> (source fields \<open>id\<close>, \<open>name\<close>, \<open>provider\<close>).\<close>

record model_info =
  modelId :: string
  modelName :: string
  provider :: Provider

definition VIDEO_MODELS :: "model_info list" where
  "VIDEO_MODELS =
    [\<lparr>modelId = ''veo-2.0-generate-001'', modelName = ''Veo 2 (Gemini)'', provider = gemini\<rparr>,
     \<lparr>modelId = ''sora-openai'', modelName = ''Sora (OpenAI)'', provider = sora\<rparr>,
     \<lparr>modelId = ''sora-azure'', modelName = ''Sora (Azure)'', provider = azure\<rparr>,
     \<lparr>modelId = ''kling-1'', modelName = ''Kling'', provider = kling\<rparr>,
     \<lparr>modelId = ''minimax-v1'', modelName = ''Minimax'', provider = minimax\<rparr>,
     \<lparr>modelId = ''deepai-video'', modelName = ''Video Generator (DeepAI)'', provider = deepai\<rparr>]"

definition IMAGE_MODELS :: "model_info list" where
  "IMAGE_MODELS =
    [\<lparr>modelId = ''imagen-4.0-generate-001'', modelName = ''Imagen 4 (Gemini)'', provider = gemini\<rparr>,
     \<lparr>modelId = ''dalle-3'', modelName = ''DALL-E 3 (OpenAI)'', provider = sora\<rparr>]"

definition MAX_CONCURRENT_JOBS :: int where
  "MAX_CONCURRENT_JOBS = 4"

definition RATE_LIMIT_COUNT :: int where
  "RATE_LIMIT_COUNT = 4"

definition RATE_LIMIT_WINDOW_MS :: int where
  "RATE_LIMIT_WINDOW_MS = 60 * 1000"

definition MAX_RETRIES :: nat where
  "MAX_RETRIES = 3"

text \<open>
  The three fixed messages of src/App.tsx are Vietnamese; each is given by the bytes of its
  UTF-8 encoding. In ASCII they read "Tu dong thu lai..." (retrying automatically),
  "Loi khong xac dinh" (unknown error) and "Da huy boi nguoi dung" (cancelled by the user).
\<close>

definition AUTO_RETRY_MESSAGE :: string where
  "AUTO_RETRY_MESSAGE = map char_of
    [84, 225, 187, 177, 32, 196, 145, 225, 187, 153, 110, 103, 32, 116, 104, 225, 187, 173,
     32, 108, 225, 186, 161, 105, 46, 46, 46 :: nat]"

definition UNKNOWN_ERROR_MESSAGE :: string where
  "UNKNOWN_ERROR_MESSAGE = map char_of
    [76, 225, 187, 151, 105, 32, 107, 104, 195, 180, 110, 103, 32, 120, 195, 161, 99, 32,
     196, 145, 225, 187, 139, 110, 104 :: nat]"

definition CANCELLED_MESSAGE :: string where
  "CANCELLED_MESSAGE = map char_of
    [196, 144, 195, 163, 32, 104, 225, 187, 167, 121, 32, 98, 225, 187, 159, 105, 32, 110,
     103, 198, 176, 225, 187, 157, 105, 32, 100, 195, 185, 110, 103 :: nat]"

text \<open>
  What a dispatch (\<open>processJob\<close>) settles with. It resolves with an object of type
  \<open>{ resultUrl?: string, resultUrls?: string[] }\<close>, or rejects with a
  \<open>QuotaExceededError\<close> or another \<open>Error\<close>, each carrying its message. Which of these
  happens is decided by the provider, outside the scheduler.
\<close>

record job_result =
  newResultUrl :: "string option"
  newResultUrls :: "string list option"

datatype rejection = QuotaExceededError string | OtherError string

datatype outcome = Resolved job_result | Rejected rejection

fun message :: "rejection \<Rightarrow> string" where
  "message (QuotaExceededError m) = m"
| "message (OtherError m) = m"

fun isQuotaExceededError :: "rejection \<Rightarrow> bool" where
  "isQuotaExceededError (QuotaExceededError m) = True"
| "isQuotaExceededError (OtherError m) = False"

text \<open>
  The state of the \<open>App\<close> component: the two \<open>useState\<close> cells \<open>jobs\<close> and
  \<open>quotaExceededProviders\<close>, the \<open>apiKeys\<close> cell (a missing or \<open>null\<close> key is \<open>None\<close>), the two
  refs \<open>jobStartTimestamps\<close> and \<open>cancelledJobIds\<close>, and the promises of \<open>processJob\<close> that
  have not settled yet, each remembered by the \<open>jobToStart\<close> its callbacks close over.
\<close>

record app_state =
  jobs :: "Job list"
  apiKeys :: "Provider \<Rightarrow> string option"
  quotaExceededProviders :: "Provider set"
  jobStartTimestamps :: "int list"
  cancelledJobIds :: "string set"
  inFlight :: "Job list"

definition initial :: "(Provider \<Rightarrow> string option) \<Rightarrow> app_state" where
  "initial storedKeys =
    \<lparr>jobs = [], apiKeys = storedKeys, quotaExceededProviders = {},
     jobStartTimestamps = [], cancelledJobIds = {}, inFlight = []\<rparr>"

section \<open>The scheduler tick (\<open>processQueue\<close>)\<close>

text \<open>
  \<open>modelList.find(m => m.id === job.model)\<close>, with the list chosen by the input type.
\<close>

definition modelInfoOf :: "Job \<Rightarrow> model_info option" where
  "modelInfoOf job =
    find (\<lambda>m. modelId m = model job)
      (if inputType job = TextToImage then IMAGE_MODELS else VIDEO_MODELS)"

text \<open>
  \<open>modelInfo && apiKeys[modelInfo.provider]\<close> as a truth value: the model is known and the
  key of its provider is neither missing, \<open>null\<close> nor the empty string.
\<close>

definition hasCredential :: "(Provider \<Rightarrow> string option) \<Rightarrow> Job \<Rightarrow> bool" where
  "hasCredential keys job =
    (case modelInfoOf job of
       None \<Rightarrow> False
     | Some modelInfo \<Rightarrow>
         (case keys (provider modelInfo) of None \<Rightarrow> False | Some k \<Rightarrow> k \<noteq> []))"

text \<open>The loop over \<open>pendingJobs\<close> that fills \<open>jobsToStart\<close>; the last argument is the array so far.\<close>

fun collectJobsToStart ::
  "(Provider \<Rightarrow> string option) \<Rightarrow> int \<Rightarrow> Job list \<Rightarrow> Job list \<Rightarrow> Job list" where
  "collectJobsToStart keys slotsToProcess [] jobsToStart = jobsToStart"
| "collectJobsToStart keys slotsToProcess (job # rest) jobsToStart =
    (if hasCredential keys job \<and> int (length jobsToStart) < slotsToProcess
     then collectJobsToStart keys slotsToProcess rest (jobsToStart @ [job])
     else collectJobsToStart keys slotsToProcess rest jobsToStart)"

text \<open>
  The body of \<open>jobsToStart.forEach\<close> for one job: the job with that id becomes Processing, the
  clock is read and pushed, and the dispatch is in flight.
\<close>

definition startJob :: "int \<Rightarrow> Job \<Rightarrow> app_state \<Rightarrow> app_state" where
  "startJob dateNow jobToStart s =
    s\<lparr>jobs := map (\<lambda>j. if jobId j = jobId jobToStart then j\<lparr>status := Processing\<rparr> else j) (jobs s),
      jobStartTimestamps := jobStartTimestamps s @ [dateNow],
      inFlight := inFlight s @ [jobToStart]\<rparr>"

text \<open>
  \<open>clock n\<close> is what the \<open>n\<close>-th call of \<open>Date.now()\<close> in a tick returns: \<open>clock 0\<close> is \<open>now\<close>, and
  the job started as number \<open>k\<close> (from 0) pushes \<open>clock (Suc k)\<close>.
\<close>

fun startJobs :: "(nat \<Rightarrow> int) \<Rightarrow> nat \<Rightarrow> Job list \<Rightarrow> app_state \<Rightarrow> app_state" where
  "startJobs clock k [] s = s"
| "startJobs clock k (jobToStart # rest) s =
    startJobs clock (Suc k) rest (startJob (clock (Suc k)) jobToStart s)"

definition pruned :: "int \<Rightarrow> int list \<Rightarrow> int list" where
  "pruned now timestamps = filter (\<lambda>timestamp. now - timestamp < RATE_LIMIT_WINDOW_MS) timestamps"

definition slotsToProcess :: "int \<Rightarrow> app_state \<Rightarrow> int" where
  "slotsToProcess now s =
    (let processingJobs = int (length (filter (\<lambda>j. status j = Processing) (jobs s)));
         availableConcurrencySlots = MAX_CONCURRENT_JOBS - processingJobs;
         availableRateLimitSlots =
           RATE_LIMIT_COUNT - int (length (pruned now (jobStartTimestamps s)))
     in min availableConcurrencySlots availableRateLimitSlots)"

definition jobsToStart :: "int \<Rightarrow> app_state \<Rightarrow> Job list" where
  "jobsToStart now s =
    (let pendingJobs = filter (\<lambda>j. status j = Pending) (jobs s)
     in collectJobsToStart (apiKeys s) (slotsToProcess now s) pendingJobs [])"

definition processQueue :: "(nat \<Rightarrow> int) \<Rightarrow> app_state \<Rightarrow> app_state" where
  "processQueue clock s =
    (if quotaExceededProviders s \<noteq> {} then s
     else
       let now = clock 0;
           s1 = s\<lparr>jobStartTimestamps := pruned now (jobStartTimestamps s)\<rparr>
       in if slotsToProcess now s \<le> 0 then s1
          else if length (jobsToStart now s) = 0 then s1
          else startJobs clock 0 (jobsToStart now s) s1)"

text \<open>
  The \<open>useEffect\<close> that owns the interval: the interval exists, and so \<open>processQueue\<close> is
  called, only while some job is Pending and no provider is out of quota.
\<close>

definition tick :: "(nat \<Rightarrow> int) \<Rightarrow> app_state \<Rightarrow> app_state" where
  "tick clock s =
    (if list_ex (\<lambda>j. status j = Pending) (jobs s) \<and> quotaExceededProviders s = {}
     then processQueue clock s else s)"

section \<open>Settlement of a dispatch (\<open>.then\<close> and \<open>.catch\<close>)\<close>

text \<open>\<open>{ ...j, status: JobStatus.Completed, ...result, error: undefined }\<close>\<close>

definition completed :: "job_result \<Rightarrow> Job \<Rightarrow> Job" where
  "completed result j =
    j\<lparr>status := Completed,
      resultUrl := (case newResultUrl result of None \<Rightarrow> resultUrl j | Some u \<Rightarrow> Some u),
      resultUrls := (case newResultUrls result of None \<Rightarrow> resultUrls j | Some us \<Rightarrow> Some us),
      error := None\<rparr>"

definition onFulfilled :: "Job \<Rightarrow> job_result \<Rightarrow> app_state \<Rightarrow> app_state" where
  "onFulfilled jobToStart result s =
    (if jobId jobToStart \<in> cancelledJobIds s
     then s\<lparr>cancelledJobIds := cancelledJobIds s - {jobId jobToStart}\<rparr>
     else s\<lparr>jobs := map (\<lambda>j. if jobId j = jobId jobToStart then completed result j else j) (jobs s)\<rparr>)"

text \<open>The updater of the last \<open>setJobs\<close> in \<open>.catch\<close>, for the job whose id matches.\<close>

definition retryOrFail :: "rejection \<Rightarrow> Job \<Rightarrow> Job" where
  "retryOrFail err j =
    (if retryCount j < MAX_RETRIES
     then j\<lparr>status := Pending, retryCount := retryCount j + 1, error := Some AUTO_RETRY_MESSAGE\<rparr>
     else j\<lparr>status := Failed,
            error := Some (if message err = [] then UNKNOWN_ERROR_MESSAGE else message err)\<rparr>)"

definition onRejected :: "Job \<Rightarrow> rejection \<Rightarrow> app_state \<Rightarrow> app_state" where
  "onRejected jobToStart err s =
    (if jobId jobToStart \<in> cancelledJobIds s
     then s\<lparr>cancelledJobIds := cancelledJobIds s - {jobId jobToStart}\<rparr>
     else
       (case (if isQuotaExceededError err then modelInfoOf jobToStart else None) of
          Some modelInfo \<Rightarrow>
            s\<lparr>quotaExceededProviders := insert (provider modelInfo) (quotaExceededProviders s),
              jobs := map (\<lambda>j. if jobId j = jobId jobToStart
                                then j\<lparr>status := Failed, error := Some (message err)\<rparr> else j) (jobs s)\<rparr>
        | None \<Rightarrow>
            s\<lparr>jobs := map (\<lambda>j. if jobId j = jobId jobToStart then retryOrFail err j else j) (jobs s)\<rparr>))"

text \<open>The dispatch at position \<open>k\<close> of the ones in flight settles.\<close>

definition settle :: "nat \<Rightarrow> outcome \<Rightarrow> app_state \<Rightarrow> app_state" where
  "settle k out s =
    (if k < length (inFlight s)
     then
       let jobToStart = inFlight s ! k;
           s1 = s\<lparr>inFlight := take k (inFlight s) @ drop (Suc k) (inFlight s)\<rparr>
       in (case out of
             Resolved result \<Rightarrow> onFulfilled jobToStart result s1
           | Rejected err \<Rightarrow> onRejected jobToStart err s1)
     else s)"

section \<open>The handlers of the caller\<close>

text \<open>
  \<open>handleAddJobs\<close>. \<open>uuids\<close> are the values \<open>crypto.randomUUID()\<close> returns, one for each new job.
\<close>

definition newJob :: "JobTemplate \<Rightarrow> string \<Rightarrow> Job" where
  "newJob job uuid =
    \<lparr>prompt = prompt job, inputType = inputType job, model = model job,
     aspectRatio = aspectRatio job, outputs = outputs job, jobImage = jobImage job,
     jobId = uuid, status = Pending, retryCount = 0,
     resultUrl = None, resultUrls = None, error = None\<rparr>"

definition handleAddJobs :: "JobTemplate list \<Rightarrow> string list \<Rightarrow> app_state \<Rightarrow> app_state" where
  "handleAddJobs newJobs uuids s = s\<lparr>jobs := jobs s @ map2 newJob newJobs uuids\<rparr>"

definition handleSaveApiKey :: "Provider \<Rightarrow> string \<Rightarrow> app_state \<Rightarrow> app_state" where
  "handleSaveApiKey p newKey s =
    (if newKey \<noteq> []
     then s\<lparr>apiKeys := (apiKeys s)(p := Some newKey),
            quotaExceededProviders := quotaExceededProviders s - {p}\<rparr>
     else s)"

definition handleRetryJob :: "string \<Rightarrow> app_state \<Rightarrow> app_state" where
  "handleRetryJob jid s =
    s\<lparr>jobs := map (\<lambda>j. if jobId j = jid
                      then j\<lparr>status := Pending, error := None, retryCount := 0\<rparr> else j) (jobs s)\<rparr>"

definition handleCancelJob :: "string \<Rightarrow> app_state \<Rightarrow> app_state" where
  "handleCancelJob jid s =
    s\<lparr>cancelledJobIds := insert jid (cancelledJobIds s),
      jobs := map (\<lambda>j. if jobId j = jid
                      then j\<lparr>status := Failed, error := Some CANCELLED_MESSAGE\<rparr> else j) (jobs s)\<rparr>"

section \<open>Runs of the component\<close>

text \<open>
  What can happen to the component, one event at a time: the interval fires, the caller adds,
  retries or cancels jobs or saves a key, or a dispatch in flight settles. Every event sees
  the state the previous one left.
\<close>

datatype event =
    Tick "nat \<Rightarrow> int"
  | AddJobs "JobTemplate list" "string list"
  | SaveApiKey Provider string
  | RetryJob string
  | CancelJob string
  | Settle nat outcome

text \<open>
  \<open>crypto.randomUUID()\<close> returns an identifier that no job has: an \<open>AddJobs\<close> whose identifiers
  repeat one another or the id of a job in the list does not happen.
\<close>

definition freshUuids :: "JobTemplate list \<Rightarrow> string list \<Rightarrow> app_state \<Rightarrow> bool" where
  "freshUuids newJobs uuids s \<longleftrightarrow>
    length uuids = length newJobs \<and> distinct uuids \<and>
    \<not> list_ex (\<lambda>u. u \<in> set (map jobId (jobs s))) uuids"

fun step :: "app_state \<Rightarrow> event \<Rightarrow> app_state" where
  "step s (Tick clock) = tick clock s"
| "step s (AddJobs newJobs uuids) =
    (if freshUuids newJobs uuids s then handleAddJobs newJobs uuids s else s)"
| "step s (SaveApiKey p newKey) = handleSaveApiKey p newKey s"
| "step s (RetryJob jid) = handleRetryJob jid s"
| "step s (CancelJob jid) = handleCancelJob jid s"
| "step s (Settle k out) = settle k out s"

definition run :: "app_state \<Rightarrow> event list \<Rightarrow> app_state" where
  "run s es = foldl step s es"

definition reachable :: "app_state \<Rightarrow> bool" where
  "reachable s \<longleftrightarrow> (\<exists>storedKeys es. s = run (initial storedKeys) es)"

section \<open>Auxiliary notions of the proofs\<close>

abbreviation processingCount :: "Job list \<Rightarrow> nat" where
  "processingCount js \<equiv> length (filter (\<lambda>j. status j = Processing) js)"

text \<open>
  The invariant behind the two limits: ids are unique, at most \<open>MAX_CONCURRENT_JOBS\<close> jobs are
  Processing, and at most \<open>RATE_LIMIT_COUNT\<close> timestamps are recorded at all.
\<close>

definition budget :: "app_state \<Rightarrow> bool" where
  "budget s \<longleftrightarrow>
     distinct (map jobId (jobs s)) \<and>
     int (processingCount (jobs s)) \<le> MAX_CONCURRENT_JOBS \<and>
     int (length (jobStartTimestamps s)) \<le> RATE_LIMIT_COUNT"

section \<open>Example runs\<close>

definition veoTemplate :: JobTemplate where
  "veoTemplate =
    \<lparr>prompt = ''a cat'', inputType = TextToVideo, model = ''veo-2.0-generate-001'',
     aspectRatio = ''16:9'', outputs = 1, jobImage = None\<rparr>"

definition geminiKey :: "Provider \<Rightarrow> string option" where
  "geminiKey p = (if p = gemini then Some ''key'' else None)"

text \<open>Five jobs are added and the interval fires once, at time 1000.\<close>

definition fiveJobs :: "event list" where
  "fiveJobs =
    [AddJobs [veoTemplate, veoTemplate, veoTemplate, veoTemplate, veoTemplate]
       [''a'', ''b'', ''c'', ''d'', ''e''],
     Tick (\<lambda>n. 1000)]"

text \<open>The bound on automatic retries, as a property of a state.\<close>

definition retryBounded :: "app_state \<Rightarrow> bool" where
  "retryBounded s \<longleftrightarrow> list_all (\<lambda>j. retryCount j \<le> MAX_RETRIES) (jobs s)"

text \<open>
  One more dispatch of a job that fails with an ordinary error: the tick has made the job
  Processing, and the \<open>.catch\<close> callback applies \<open>retryOrFail\<close>.
\<close>

definition failAgain :: "rejection \<Rightarrow> Job \<Rightarrow> Job" where
  "failAgain err j = retryOrFail err (j\<lparr>status := Processing\<rparr>)"

text \<open>
  One job is added; three times in a row it is dispatched and its dispatch rejects with an
  ordinary error; then it is dispatched a fourth time.
\<close>

definition threeFailures :: "event list" where
  "threeFailures =
    [AddJobs [veoTemplate] [''a''],
     Tick (\<lambda>n. 1000), Settle 0 (Rejected (OtherError ''boom'')),
     Tick (\<lambda>n. 2000), Settle 0 (Rejected (OtherError ''boom'')),
     Tick (\<lambda>n. 3000), Settle 0 (Rejected (OtherError ''boom'')),
     Tick (\<lambda>n. 4000)]"

text \<open>Whether an event is \<open>handleSaveApiKey\<close>, the only code that removes a provider from
  \<open>quotaExceededProviders\<close>.\<close>

definition isSaveApiKey :: "event \<Rightarrow> bool" where
  "isSaveApiKey e = (case e of SaveApiKey p k \<Rightarrow> True | _ \<Rightarrow> False)"

text \<open>Every dispatch in flight belongs to a job whose model is in its list.\<close>

definition dispatchedKnown :: "app_state \<Rightarrow> bool" where
  "dispatchedKnown s \<longleftrightarrow> list_all (\<lambda>d. modelInfoOf d \<noteq> None) (inFlight s)"

text \<open>
  The state after \<open>fiveJobs\<close>, and what it becomes when the dispatch of the first job rejects
  with a quota error, when the first job is cancelled, and when its dispatch resolves.
\<close>

definition afterFive :: app_state where
  "afterFive = run (initial geminiKey) fiveJobs"

definition quotaHit :: app_state where
  "quotaHit = run (initial geminiKey) (fiveJobs @ [Settle 0 (Rejected (QuotaExceededError ''quota''))])"

definition cancelledA :: app_state where
  "cancelledA = run (initial geminiKey) (fiveJobs @ [CancelJob ''a''])"

definition completedA :: app_state where
  "completedA = run (initial geminiKey)
     (fiveJobs @ [Settle 0 (Resolved \<lparr>newResultUrl = Some ''blob:1'', newResultUrls = None\<rparr>)])"

text \<open>
  The model of the job is known, and the key of its provider is missing, \<open>null\<close> or empty.
\<close>

definition noCredential :: "(Provider \<Rightarrow> string option) \<Rightarrow> Job \<Rightarrow> bool" where
  "noCredential keys j =
    (case modelInfoOf j of
       None \<Rightarrow> False
     | Some modelInfo \<Rightarrow> keys (provider modelInfo) = None \<or> keys (provider modelInfo) = Some [])"

text \<open>The state with every copy of one job taken out of the list.\<close>

definition withoutJob :: "Job \<Rightarrow> app_state \<Rightarrow> app_state" where
  "withoutJob j s = s\<lparr>jobs := filter (\<lambda>x. x \<noteq> j) (jobs s)\<rparr>"

text \<open>
  A template for a provider without a key; four such jobs in front of one that has a key;
  and six jobs of which four are dispatched and the first is then cancelled.
\<close>

definition soraTemplate :: JobTemplate where
  "soraTemplate =
    \<lparr>prompt = ''a dog'', inputType = TextToVideo, model = ''sora-openai'',
     aspectRatio = ''16:9'', outputs = 1, jobImage = None\<rparr>"

definition mixedState :: app_state where
  "mixedState = run (initial geminiKey)
     [AddJobs [soraTemplate, soraTemplate, soraTemplate, soraTemplate, veoTemplate]
        [''p'', ''q'', ''r'', ''s'', ''t'']]"

definition fifoState :: app_state where
  "fifoState = run (initial geminiKey)
     [AddJobs [veoTemplate, veoTemplate, veoTemplate, veoTemplate, veoTemplate, veoTemplate]
        [''a'', ''b'', ''c'', ''d'', ''e'', ''f''],
      Tick (\<lambda>n. 1000), CancelJob ''a'']"

text \<open>A job is cancelled, then retried by hand, then the interval fires.\<close>

definition cancelRetryTick :: "string \<Rightarrow> (nat \<Rightarrow> int) \<Rightarrow> app_state \<Rightarrow> app_state" where
  "cancelRetryTick jid clock s = processQueue clock (handleRetryJob jid (handleCancelJob jid s))"

text \<open>One Pending job and nothing in flight.\<close>

definition oneJob :: app_state where
  "oneJob = run (initial geminiKey) [AddJobs [veoTemplate] [''a'']]"





text \<open>
  Two runs. In the first a job completes and is then cancelled. In the second a job is
  cancelled while Processing and retried by hand, twice, so that three dispatches of it are
  in flight with one mark in the cancelled set: the first settlement is dropped, the second
  completes the job, the third rejects and sends it back to Pending.
\<close>

definition completeThenCancel :: "event list" where
  "completeThenCancel =
     fiveJobs @ [Settle 0 (Resolved \<lparr>newResultUrl = Some ''blob:1'', newResultUrls = None\<rparr>),
                 CancelJob ''a'']"

definition lateSettlements :: "event list" where
  "lateSettlements =
    [AddJobs [veoTemplate] [''a''],
     Tick (\<lambda>n. 1000), CancelJob ''a'', RetryJob ''a'',
     Tick (\<lambda>n. 2000), CancelJob ''a'', RetryJob ''a'',
     Tick (\<lambda>n. 3000),
     Settle 0 (Rejected (OtherError ''first'')),
     Settle 0 (Resolved \<lparr>newResultUrl = Some ''blob:2'', newResultUrls = None\<rparr>),
     Settle 0 (Rejected (OtherError ''third''))]"










section \<open>The tick, in closed form\<close>

lemma collectJobsToStart_eq:
  "collectJobsToStart keys slots xs acc =
     acc @ take (nat (slots - int (length acc))) (filter (hasCredential keys) xs)"
proof (induction xs arbitrary: acc)
  case Nil
  show ?case by simp
next
  case (Cons x xs)
  show ?case
  proof (cases "hasCredential keys x \<and> int (length acc) < slots")
    case True
    then have "nat (slots - int (length acc)) = Suc (nat (slots - int (length (acc @ [x]))))"
      using True by auto
    with True Cons show ?thesis by simp
  next
    case False
    then show ?thesis using Cons by (auto simp: not_less)
  qed
qed

lemma jobsToStart_eq:
  "jobsToStart now s =
     take (nat (slotsToProcess now s))
       (filter (hasCredential (apiKeys s)) (filter (\<lambda>j. status j = Pending) (jobs s)))"
  by (simp add: jobsToStart_def collectJobsToStart_eq)

lemma startJobs_jobs:
  "jobs (startJobs clock k js s) =
     map (\<lambda>j. if jobId j \<in> jobId ` set js then j\<lparr>status := Processing\<rparr> else j) (jobs s)"
proof (induction js arbitrary: k s)
  case Nil
  show ?case by (simp add: map_idI)
next
  case (Cons x js)
  show ?case by (simp add: Cons startJob_def o_def)
qed

lemma startJobs_timestamps:
  "jobStartTimestamps (startJobs clock k js s) =
     jobStartTimestamps s @ map (\<lambda>i. clock (Suc i)) [k..<k + length js]"
proof (induction js arbitrary: k s)
  case Nil
  show ?case by simp
next
  case (Cons x js)
  have "[k..<k + length (x # js)] = k # [Suc k..<Suc k + length js]"
    by (subst upt_rec) simp
  then show ?case by (simp add: Cons startJob_def)
qed

lemma startJobs_inFlight: "inFlight (startJobs clock k js s) = inFlight s @ js"
  by (induction js arbitrary: k s) (simp_all add: startJob_def)

lemma startJobs_others:
  "apiKeys (startJobs clock k js s) = apiKeys s"
  "quotaExceededProviders (startJobs clock k js s) = quotaExceededProviders s"
  "cancelledJobIds (startJobs clock k js s) = cancelledJobIds s"
  by (induction js arbitrary: k s) (simp_all add: startJob_def)

lemmas eval_defs =
  run_def initial_def tick_def processQueue_def jobsToStart_def slotsToProcess_def pruned_def
  startJob_def hasCredential_def modelInfoOf_def VIDEO_MODELS_def IMAGE_MODELS_def
  MAX_CONCURRENT_JOBS_def RATE_LIMIT_COUNT_def RATE_LIMIT_WINDOW_MS_def MAX_RETRIES_def
  handleAddJobs_def freshUuids_def newJob_def handleRetryJob_def handleCancelJob_def
  handleSaveApiKey_def settle_def onFulfilled_def onRejected_def retryOrFail_def completed_def
  Let_def

lemmas example_defs =
  afterFive_def quotaHit_def cancelledA_def completedA_def fiveJobs_def veoTemplate_def geminiKey_def

lemma afterFive_reachable: "reachable afterFive"
  unfolding afterFive_def reachable_def by blast

section \<open>The concurrency and rate limits\<close>

lemma processingCount_map_le:
  assumes "\<And>j. status (f j) = Processing \<Longrightarrow> status j = Processing"
  shows "processingCount (map f js) \<le> processingCount js"
proof (induction js)
  case Nil
  show ?case by simp
next
  case (Cons j js)
  then show ?case using assms [of j] by auto
qed

lemma map_other_id:
  "x \<notin> jobId ` set js \<Longrightarrow> map (\<lambda>j. if jobId j = x then f j else j) js = js"
  by (rule map_idI) auto

lemma processingCount_start_one:
  assumes "distinct (map jobId js)"
  shows "processingCount (map (\<lambda>j. if jobId j = x then j\<lparr>status := Processing\<rparr> else j) js)
           \<le> Suc (processingCount js)"
  using assms
proof (induction js)
  case Nil
  show ?case by simp
next
  case (Cons j js)
  show ?case
  proof (cases "jobId j = x")
    case True
    with Cons.prems have "x \<notin> jobId ` set js" by auto
    then show ?thesis using True by (simp add: map_other_id)
  next
    case False
    with Cons show ?thesis by simp
  qed
qed

lemma startJob_ids: "map jobId (jobs (startJob t x s)) = map jobId (jobs s)"
  by (simp add: startJob_def o_def)

lemma startJobs_ids: "map jobId (jobs (startJobs clock k js s)) = map jobId (jobs s)"
  by (induction js arbitrary: k s) (simp_all add: startJob_ids)

lemma processingCount_startJobs:
  "distinct (map jobId (jobs s)) \<Longrightarrow>
     processingCount (jobs (startJobs clock k js s)) \<le> processingCount (jobs s) + length js"
proof (induction js arbitrary: k s)
  case Nil
  show ?case by simp
next
  case (Cons x js)
  let ?s1 = "startJob (clock (Suc k)) x s"
  have d: "distinct (map jobId (jobs ?s1))"
    using Cons.prems by (simp only: startJob_ids)
  have "processingCount (jobs ?s1) \<le> Suc (processingCount (jobs s))"
    using processingCount_start_one [OF Cons.prems, of "jobId x"] by (simp add: startJob_def)
  moreover have "processingCount (jobs (startJobs clock (Suc k) js ?s1))
                   \<le> processingCount (jobs ?s1) + length js"
    by (rule Cons.IH [OF d])
  ultimately show ?case by simp
qed

lemma length_jobsToStart: "int (length (jobsToStart now s)) \<le> max 0 (slotsToProcess now s)"
  by (simp add: jobsToStart_eq)

lemma length_pruned: "length (pruned now ts) \<le> length ts"
  by (simp add: pruned_def)

lemma processQueue_ids: "map jobId (jobs (processQueue clock s)) = map jobId (jobs s)"
  by (simp add: processQueue_def Let_def startJobs_ids)

lemma processQueue_budget:
  assumes "budget s"
  shows "budget (processQueue clock s)"
proof -
  let ?now = "clock 0"
  let ?s1 = "s\<lparr>jobStartTimestamps := pruned ?now (jobStartTimestamps s)\<rparr>"
  let ?js = "jobsToStart ?now s"
  have d: "distinct (map jobId (jobs s))" using assms by (simp add: budget_def)
  have b1: "budget ?s1"
    using assms length_pruned [of ?now "jobStartTimestamps s"] by (simp add: budget_def)
  have b2: "budget (startJobs clock 0 ?js ?s1)" if pos: "0 < slotsToProcess ?now s"
  proof -
    have n: "int (length ?js) \<le> slotsToProcess ?now s"
      using length_jobsToStart [of ?now s] pos by simp
    have c: "slotsToProcess ?now s \<le> MAX_CONCURRENT_JOBS - int (processingCount (jobs s))"
      by (simp add: slotsToProcess_def Let_def)
    have r: "slotsToProcess ?now s
               \<le> RATE_LIMIT_COUNT - int (length (pruned ?now (jobStartTimestamps s)))"
      by (simp add: slotsToProcess_def Let_def)
    have "processingCount (jobs (startJobs clock 0 ?js ?s1))
            \<le> processingCount (jobs ?s1) + length ?js"
      by (rule processingCount_startJobs) (simp add: d)
    then have p: "int (processingCount (jobs (startJobs clock 0 ?js ?s1))) \<le> MAX_CONCURRENT_JOBS"
      using n c by simp
    have t: "int (length (jobStartTimestamps (startJobs clock 0 ?js ?s1))) \<le> RATE_LIMIT_COUNT"
      using n r by (simp add: startJobs_timestamps)
    show ?thesis
      unfolding budget_def using p t d by (simp add: startJobs_ids)
  qed
  show ?thesis
    using assms b1 b2 by (simp add: processQueue_def Let_def not_le)
qed

lemma budget_map:
  assumes "budget s"
    and "jobs s' = map f (jobs s)"
    and "jobStartTimestamps s' = jobStartTimestamps s"
    and "\<And>j. jobId (f j) = jobId j"
    and "\<And>j. status (f j) = Processing \<Longrightarrow> status j = Processing"
  shows "budget s'"
proof -
  have "map jobId (jobs s') = map jobId (jobs s)"
    using assms(2,4) by (simp add: o_def)
  moreover have "processingCount (jobs s') \<le> processingCount (jobs s)"
    unfolding assms(2) by (rule processingCount_map_le) (rule assms(5))
  ultimately show ?thesis
    using assms(1,3) by (simp add: budget_def)
qed

lemma budget_same:
  "budget s \<Longrightarrow> jobs s' = jobs s \<Longrightarrow> jobStartTimestamps s' = jobStartTimestamps s \<Longrightarrow> budget s'"
  by (simp add: budget_def)

lemma handleRetryJob_budget: "budget s \<Longrightarrow> budget (handleRetryJob jid s)"
  by (erule budget_map [where f = "\<lambda>j. if jobId j = jid
        then j\<lparr>status := Pending, error := None, retryCount := 0\<rparr> else j"])
     (simp_all add: handleRetryJob_def split: if_splits)

lemma handleCancelJob_budget: "budget s \<Longrightarrow> budget (handleCancelJob jid s)"
  by (erule budget_map [where f = "\<lambda>j. if jobId j = jid
        then j\<lparr>status := Failed, error := Some CANCELLED_MESSAGE\<rparr> else j"])
     (simp_all add: handleCancelJob_def split: if_splits)

lemma handleSaveApiKey_budget: "budget s \<Longrightarrow> budget (handleSaveApiKey p k s)"
  by (erule budget_same) (simp_all add: handleSaveApiKey_def)

lemma onFulfilled_budget: "budget s \<Longrightarrow> budget (onFulfilled d r s)"
proof (cases "jobId d \<in> cancelledJobIds s")
  case True
  assume "budget s"
  then show ?thesis by (rule budget_same) (simp_all add: onFulfilled_def True)
next
  case False
  assume "budget s"
  then show ?thesis
    by (rule budget_map [where f = "\<lambda>j. if jobId j = jobId d then completed r j else j"])
       (simp_all add: onFulfilled_def False completed_def split: if_splits)
qed

lemma retryOrFail_id: "jobId (retryOrFail e j) = jobId j"
  by (simp add: retryOrFail_def)

lemma retryOrFail_status: "status (retryOrFail e j) \<noteq> Processing"
  by (simp add: retryOrFail_def)

lemma onRejected_budget: "budget s \<Longrightarrow> budget (onRejected d e s)"
proof (cases "jobId d \<in> cancelledJobIds s")
  case True
  assume "budget s"
  then show ?thesis by (rule budget_same) (simp_all add: onRejected_def True)
next
  case False
  assume b: "budget s"
  show ?thesis
  proof (cases "if isQuotaExceededError e then modelInfoOf d else None")
    case None
    from b show ?thesis
      by (rule budget_map [where f = "\<lambda>j. if jobId j = jobId d then retryOrFail e j else j"])
         (simp_all add: onRejected_def False None retryOrFail_id retryOrFail_status split: if_splits)
  next
    case (Some m)
    from b show ?thesis
      by (rule budget_map [where f = "\<lambda>j. if jobId j = jobId d
            then j\<lparr>status := Failed, error := Some (message e)\<rparr> else j"])
         (simp_all add: onRejected_def False Some split: if_splits)
  qed
qed

lemma settle_budget: "budget s \<Longrightarrow> budget (settle k out s)"
proof -
  assume b: "budget s"
  have "budget (s\<lparr>inFlight := xs\<rparr>)" for xs
    using b by (simp add: budget_def)
  then show ?thesis
    using b by (simp add: settle_def Let_def onFulfilled_budget onRejected_budget split: outcome.splits)
qed

lemma newJob_ids: "length uuids = length ts \<Longrightarrow> map jobId (map2 newJob ts uuids) = uuids"
proof (induction ts arbitrary: uuids)
  case Nil
  then show ?case by simp
next
  case (Cons t ts)
  then show ?case by (cases uuids) (simp_all add: newJob_def)
qed

lemma newJob_processing: "processingCount (map2 newJob ts uuids) = 0"
  by (auto simp: newJob_def filter_empty_conv dest!: set_zip_leftD set_zip_rightD in_set_zipE)

lemma handleAddJobs_budget:
  assumes "budget s" and "freshUuids ts uuids s"
  shows "budget (handleAddJobs ts uuids s)"
proof -
  define new where "new = map2 newJob ts uuids"
  have l: "length uuids = length ts" and d: "distinct uuids"
    and f: "set uuids \<inter> set (map jobId (jobs s)) = {}"
    using assms(2) by (auto simp: freshUuids_def list_ex_iff)
  have ids: "map jobId new = uuids"
    unfolding new_def by (rule newJob_ids [OF l])
  have pc: "processingCount new = 0"
    unfolding new_def by (rule newJob_processing)
  have j: "jobs (handleAddJobs ts uuids s) = jobs s @ new"
    and t: "jobStartTimestamps (handleAddJobs ts uuids s) = jobStartTimestamps s"
    by (simp_all add: handleAddJobs_def new_def)
  have "distinct (map jobId (jobs s) @ map jobId new)"
    unfolding ids using assms(1) d f by (auto simp: budget_def)
  moreover have "processingCount (jobs s @ new) = processingCount (jobs s)"
    using pc by simp
  ultimately show ?thesis
    using assms(1) unfolding budget_def j t by simp
qed

lemma tick_budget: "budget s \<Longrightarrow> budget (tick clock s)"
  by (simp add: tick_def processQueue_budget)

lemma step_budget: "budget s \<Longrightarrow> budget (step s e)"
  by (cases e)
     (simp_all add: tick_budget handleAddJobs_budget handleSaveApiKey_budget
        handleRetryJob_budget handleCancelJob_budget settle_budget)

lemma run_budget: "budget s \<Longrightarrow> budget (run s es)"
  unfolding run_def by (induction es arbitrary: s) (simp_all add: step_budget)

lemma initial_budget: "budget (initial keys)"
  by (simp add: budget_def initial_def MAX_CONCURRENT_JOBS_def RATE_LIMIT_COUNT_def)

lemma reachable_budget: "reachable s \<Longrightarrow> budget s"
  unfolding reachable_def using run_budget [OF initial_budget] by auto

text \<open>
  C1. In every reachable state (after any sequence of ticks, additions, cancellations,
  retries, saved keys and settlements) at most \<open>MAX_CONCURRENT_JOBS\<close> = 4 jobs are Processing,
  and whatever the time \<open>now\<close>, at most \<open>RATE_LIMIT_COUNT\<close> = 4 recorded dispatch timestamps lie
  within the trailing window of 60 000 ms before \<open>now\<close>.
\<close>

theorem C1_limits:
  assumes "reachable s"
  shows "int (length (filter (\<lambda>j. status j = Processing) (jobs s))) \<le> MAX_CONCURRENT_JOBS \<and>
         (\<forall>now. int (length (pruned now (jobStartTimestamps s))) \<le> RATE_LIMIT_COUNT)"
proof -
  have b: "budget s" by (rule reachable_budget [OF assms])
  have "int (length (pruned now (jobStartTimestamps s))) \<le> RATE_LIMIT_COUNT" for now
    using b length_pruned [of now "jobStartTimestamps s"] by (simp add: budget_def)
  then show ?thesis using b by (simp add: budget_def)
qed

theorem C1_limits_witness:
  "reachable (run (initial geminiKey) fiveJobs) \<and>
   length (filter (\<lambda>j. status j = Processing) (jobs (run (initial geminiKey) fiveJobs))) = 4 \<and>
   int (length (filter (\<lambda>j. status j = Processing) (jobs (run (initial geminiKey) fiveJobs))))
     \<le> MAX_CONCURRENT_JOBS \<and>
   (\<forall>now. int (length (pruned now (jobStartTimestamps (run (initial geminiKey) fiveJobs))))
     \<le> RATE_LIMIT_COUNT)"
proof -
  have r: "reachable (run (initial geminiKey) fiveJobs)"
    unfolding reachable_def by blast
  have "length (filter (\<lambda>j. status j = Processing) (jobs (run (initial geminiKey) fiveJobs))) = 4"
    by (simp add: eval_defs fiveJobs_def veoTemplate_def geminiKey_def)
  then show ?thesis
    using r C1_limits [OF r] by simp
qed

section \<open>Automatic retries\<close>

lemma retryBounded_map:
  assumes "retryBounded s" and "jobs s' = map f (jobs s)"
    and "\<And>j. retryCount j \<le> MAX_RETRIES \<Longrightarrow> retryCount (f j) \<le> MAX_RETRIES"
  shows "retryBounded s'"
  using assms by (simp add: retryBounded_def list_all_iff)

lemma retryBounded_same: "retryBounded s \<Longrightarrow> jobs s' = jobs s \<Longrightarrow> retryBounded s'"
  by (simp add: retryBounded_def)

lemma processQueue_jobs:
  "\<exists>ids. jobs (processQueue clock s) =
     map (\<lambda>j. if jobId j \<in> ids then j\<lparr>status := Processing\<rparr> else j) (jobs s)"
proof (cases "quotaExceededProviders s = {} \<and> 0 < slotsToProcess (clock 0) s
               \<and> jobsToStart (clock 0) s \<noteq> []")
  case True
  then show ?thesis
    by (auto simp: processQueue_def Let_def startJobs_jobs)
next
  case False
  then have "jobs (processQueue clock s) = jobs s"
    by (auto simp: processQueue_def Let_def)
  then have "jobs (processQueue clock s) =
     map (\<lambda>j. if jobId j \<in> {} then j\<lparr>status := Processing\<rparr> else j) (jobs s)"
    by simp
  then show ?thesis by blast
qed

lemma retryOrFail_retryCount:
  "retryCount j \<le> MAX_RETRIES \<Longrightarrow> retryCount (retryOrFail e j) \<le> MAX_RETRIES"
  by (simp add: retryOrFail_def)

lemma tick_retryBounded: "retryBounded s \<Longrightarrow> retryBounded (tick clock s)"
proof -
  assume b: "retryBounded s"
  obtain ids where "jobs (processQueue clock s) =
     map (\<lambda>j. if jobId j \<in> ids then j\<lparr>status := Processing\<rparr> else j) (jobs s)"
    using processQueue_jobs by blast
  with b have "retryBounded (processQueue clock s)"
    by (rule retryBounded_map) simp
  with b show ?thesis by (simp add: tick_def)
qed

lemma onFulfilled_retryBounded: "retryBounded s \<Longrightarrow> retryBounded (onFulfilled d r s)"
  by (cases "jobId d \<in> cancelledJobIds s")
     (auto simp: retryBounded_def onFulfilled_def completed_def list_all_iff)

lemma onRejected_retryBounded: "retryBounded s \<Longrightarrow> retryBounded (onRejected d e s)"
  by (cases "jobId d \<in> cancelledJobIds s")
     (auto simp: retryBounded_def onRejected_def retryOrFail_retryCount list_all_iff
        split: option.splits)

lemma settle_retryBounded: "retryBounded s \<Longrightarrow> retryBounded (settle k out s)"
proof -
  assume b: "retryBounded s"
  have "retryBounded (s\<lparr>inFlight := xs\<rparr>)" for xs
    using b by (simp add: retryBounded_def)
  then show ?thesis
    using b by (simp add: settle_def Let_def onFulfilled_retryBounded onRejected_retryBounded
        split: outcome.splits)
qed

lemma handleAddJobs_retryBounded: "retryBounded s \<Longrightarrow> retryBounded (handleAddJobs ts us s)"
  by (auto simp: retryBounded_def handleAddJobs_def newJob_def list_all_iff)

lemma step_retryBounded: "retryBounded s \<Longrightarrow> retryBounded (step s e)"
proof (cases e)
  case (RetryJob jid)
  assume "retryBounded s"
  then show ?thesis
    by (auto simp: RetryJob retryBounded_def handleRetryJob_def list_all_iff)
next
  case (CancelJob jid)
  assume "retryBounded s"
  then show ?thesis
    by (auto simp: CancelJob retryBounded_def handleCancelJob_def list_all_iff)
next
  case (SaveApiKey p k)
  assume "retryBounded s"
  then show ?thesis
    by (simp add: SaveApiKey retryBounded_def handleSaveApiKey_def)
qed (simp_all add: tick_retryBounded settle_retryBounded handleAddJobs_retryBounded)

lemma run_retryBounded: "retryBounded s \<Longrightarrow> retryBounded (run s es)"
  unfolding run_def by (induction es arbitrary: s) (simp_all add: step_retryBounded)

lemma reachable_retryBounded: "reachable s \<Longrightarrow> retryBounded s"
proof -
  have "retryBounded (initial keys)" for keys
    by (simp add: retryBounded_def initial_def)
  then show "reachable s \<Longrightarrow> retryBounded s"
    unfolding reachable_def using run_retryBounded by auto
qed

lemma settle_transient_jobs:
  assumes "k < length (inFlight s)" and "jobId (inFlight s ! k) \<notin> cancelledJobIds s"
  shows "jobs (settle k (Rejected (OtherError m)) s) =
           map (\<lambda>j. if jobId j = jobId (inFlight s ! k) then retryOrFail (OtherError m) j else j) (jobs s)"
  using assms by (simp add: settle_def onRejected_def Let_def)

text \<open>
  C2. When a dispatch in flight rejects with an error that is not a \<open>QuotaExceededError\<close> and
  the id of its job is not in the cancelled set, every job with that id changes as follows and
  no other job changes: with \<open>retryCount\<close> below \<open>MAX_RETRIES\<close> = 3 it becomes Pending, its
  \<open>retryCount\<close> grows by one and its error is the automatic-retry message; otherwise it becomes
  Failed with the message of the error (the unknown-error message when that message is empty).
  The callback does not look at the status, so this holds for a Processing job in particular.
  Hence in every reachable state no \<open>retryCount\<close> exceeds 3; and a job that starts at
  \<open>retryCount\<close> 0 is Pending with \<open>retryCount\<close> 3 after three such failures in a row and Failed
  after the fourth.
\<close>

theorem C2_retry_then_fail:
  "(k < length (inFlight s) \<and> jobId (inFlight s ! k) \<notin> cancelledJobIds s \<longrightarrow>
      length (jobs (settle k (Rejected (OtherError m)) s)) = length (jobs s) \<and>
      (\<forall>i < length (jobs s).
         jobs (settle k (Rejected (OtherError m)) s) ! i =
           (if jobId (jobs s ! i) = jobId (inFlight s ! k)
            then if retryCount (jobs s ! i) < 3
                 then (jobs s ! i)\<lparr>status := Pending, retryCount := retryCount (jobs s ! i) + 1,
                                   error := Some AUTO_RETRY_MESSAGE\<rparr>
                 else (jobs s ! i)\<lparr>status := Failed,
                                   error := Some (if m = [] then UNKNOWN_ERROR_MESSAGE else m)\<rparr>
            else jobs s ! i))) \<and>
   (reachable s \<longrightarrow> (\<forall>j \<in> set (jobs s). retryCount j \<le> 3)) \<and>
   (retryCount j = 0 \<longrightarrow>
      status ((failAgain err ^^ 3) j) = Pending \<and> retryCount ((failAgain err ^^ 3) j) = 3 \<and>
      status ((failAgain err ^^ 4) j) = Failed \<and> retryCount ((failAgain err ^^ 4) j) = 3)"
proof (intro conjI impI)
  assume a: "k < length (inFlight s) \<and> jobId (inFlight s ! k) \<notin> cancelledJobIds s"
  then have j: "jobs (settle k (Rejected (OtherError m)) s) =
           map (\<lambda>j. if jobId j = jobId (inFlight s ! k) then retryOrFail (OtherError m) j else j) (jobs s)"
    by (simp add: settle_transient_jobs)
  show "length (jobs (settle k (Rejected (OtherError m)) s)) = length (jobs s)"
    by (simp add: j)
  show "\<forall>i < length (jobs s).
         jobs (settle k (Rejected (OtherError m)) s) ! i =
           (if jobId (jobs s ! i) = jobId (inFlight s ! k)
            then if retryCount (jobs s ! i) < 3
                 then (jobs s ! i)\<lparr>status := Pending, retryCount := retryCount (jobs s ! i) + 1,
                                   error := Some AUTO_RETRY_MESSAGE\<rparr>
                 else (jobs s ! i)\<lparr>status := Failed,
                                   error := Some (if m = [] then UNKNOWN_ERROR_MESSAGE else m)\<rparr>
            else jobs s ! i)"
    by (simp add: j retryOrFail_def MAX_RETRIES_def)
next
  assume "reachable s"
  then have "retryBounded s" by (rule reachable_retryBounded)
  then show "\<forall>j \<in> set (jobs s). retryCount j \<le> 3"
    by (simp add: retryBounded_def list_all_iff MAX_RETRIES_def)
next
  assume z: "retryCount j = 0"
  have 1: "retryCount (failAgain err j) = 1" "status (failAgain err j) = Pending"
    using z by (simp_all add: failAgain_def retryOrFail_def MAX_RETRIES_def)
  have 2: "retryCount ((failAgain err ^^ 2) j) = 2"
    using 1 by (simp add: numeral_2_eq_2 failAgain_def retryOrFail_def MAX_RETRIES_def)
  have 3: "retryCount ((failAgain err ^^ 3) j) = 3" "status ((failAgain err ^^ 3) j) = Pending"
    using 2 by (simp_all add: numeral_3_eq_3 numeral_2_eq_2 failAgain_def retryOrFail_def MAX_RETRIES_def)
  have 4: "(failAgain err ^^ 4) j = failAgain err ((failAgain err ^^ 3) j)"
    by (simp add: eval_nat_numeral)
  show "status ((failAgain err ^^ 3) j) = Pending" by (rule 3)
  show "retryCount ((failAgain err ^^ 3) j) = 3" by (rule 3)
  show "status ((failAgain err ^^ 4) j) = Failed"
    unfolding 4 using 3 by (simp add: failAgain_def retryOrFail_def MAX_RETRIES_def)
  show "retryCount ((failAgain err ^^ 4) j) = 3"
    unfolding 4 using 3 by (simp add: failAgain_def retryOrFail_def MAX_RETRIES_def)
qed

theorem C2_retry_then_fail_witness:
  "0 < length (inFlight (run (initial geminiKey) threeFailures)) \<and>
   jobId (inFlight (run (initial geminiKey) threeFailures) ! 0)
     \<notin> cancelledJobIds (run (initial geminiKey) threeFailures) \<and>
   reachable (run (initial geminiKey) threeFailures) \<and>
   retryCount (newJob veoTemplate ''a'') = 0 \<and>
   map retryCount (jobs (run (initial geminiKey) threeFailures)) = [3] \<and>
   jobs (settle 0 (Rejected (OtherError ''boom'')) (run (initial geminiKey) threeFailures)) =
     [(newJob veoTemplate ''a'')\<lparr>status := Failed, retryCount := 3, error := Some ''boom''\<rparr>] \<and>
   status ((failAgain (OtherError ''boom'') ^^ 3) (newJob veoTemplate ''a'')) = Pending \<and>
   status ((failAgain (OtherError ''boom'') ^^ 4) (newJob veoTemplate ''a'')) = Failed"
proof -
  let ?s = "run (initial geminiKey) threeFailures"
  have r: "reachable ?s"
    unfolding reachable_def by blast
  have e: "jobs ?s = [(newJob veoTemplate ''a'')\<lparr>status := Processing, retryCount := 3,
                        error := Some AUTO_RETRY_MESSAGE\<rparr>]"
    "inFlight ?s = [(newJob veoTemplate ''a'')\<lparr>retryCount := 3, error := Some AUTO_RETRY_MESSAGE\<rparr>]"
    "cancelledJobIds ?s = {}"
    by (simp_all add: eval_defs threeFailures_def veoTemplate_def geminiKey_def)
  have z: "retryCount (newJob veoTemplate ''a'') = 0"
    by (simp add: newJob_def)
  note c = C2_retry_then_fail [of 0 ?s "''boom''" "newJob veoTemplate ''a''" "OtherError ''boom''"]
  have "jobs (settle 0 (Rejected (OtherError ''boom'')) ?s) ! 0 =
          (newJob veoTemplate ''a'')\<lparr>status := Failed, retryCount := 3, error := Some ''boom''\<rparr>"
    and "length (jobs (settle 0 (Rejected (OtherError ''boom'')) ?s)) = 1"
    using c by (simp_all add: e newJob_def)
  then have "jobs (settle 0 (Rejected (OtherError ''boom'')) ?s) =
     [(newJob veoTemplate ''a'')\<lparr>status := Failed, retryCount := 3, error := Some ''boom''\<rparr>]"
    by (cases "jobs (settle 0 (Rejected (OtherError ''boom'')) ?s)") simp_all
  then show ?thesis
    using r z c by (simp add: e)
qed

section \<open>Quota exhaustion\<close>

lemma processQueue_halted: "quotaExceededProviders s \<noteq> {} \<Longrightarrow> processQueue clock s = s"
  by (simp add: processQueue_def)

lemma tick_halted: "quotaExceededProviders s \<noteq> {} \<Longrightarrow> tick clock s = s"
  by (simp add: tick_def)

lemma processQueue_quota: "quotaExceededProviders (processQueue clock s) = quotaExceededProviders s"
  by (simp add: processQueue_def Let_def startJobs_others)

lemma onFulfilled_quota: "quotaExceededProviders (onFulfilled d r s) = quotaExceededProviders s"
  by (simp add: onFulfilled_def)

lemma onRejected_quota: "quotaExceededProviders s \<subseteq> quotaExceededProviders (onRejected d e s)"
  by (auto simp: onRejected_def split: option.splits)

lemma settle_quota: "quotaExceededProviders s \<subseteq> quotaExceededProviders (settle k out s)"
proof (cases "k < length (inFlight s)")
  case True
  let ?s1 = "s\<lparr>inFlight := take k (inFlight s) @ drop (Suc k) (inFlight s)\<rparr>"
  have "quotaExceededProviders ?s1 \<subseteq> quotaExceededProviders (onRejected d e ?s1)" for d e
    by (rule onRejected_quota)
  then show ?thesis
    using True by (simp add: settle_def Let_def onFulfilled_quota split: outcome.splits)
next
  case False
  then show ?thesis by (simp add: settle_def)
qed

lemma step_quota:
  "\<not> isSaveApiKey e \<Longrightarrow> quotaExceededProviders s \<subseteq> quotaExceededProviders (step s e)"
  by (cases e)
     (simp_all add: isSaveApiKey_def tick_def processQueue_quota settle_quota
        handleAddJobs_def handleRetryJob_def handleCancelJob_def)

lemma run_quota:
  "list_all (\<lambda>e. \<not> isSaveApiKey e) es \<Longrightarrow>
     quotaExceededProviders s \<subseteq> quotaExceededProviders (run s es)"
  unfolding run_def
proof (induction es arbitrary: s)
  case Nil
  show ?case by simp
next
  case (Cons e es)
  then have "quotaExceededProviders s \<subseteq> quotaExceededProviders (step s e)"
    and "quotaExceededProviders (step s e) \<subseteq> quotaExceededProviders (foldl step (step s e) es)"
    by (simp_all add: step_quota)
  then show ?case by simp
qed

lemma jobsToStart_known: "d \<in> set (jobsToStart now s) \<Longrightarrow> modelInfoOf d \<noteq> None"
  by (auto simp: jobsToStart_eq hasCredential_def dest!: in_set_takeD split: option.splits)

lemma processQueue_inFlight:
  "\<exists>js. set js \<subseteq> set (jobsToStart (clock 0) s) \<and> inFlight (processQueue clock s) = inFlight s @ js"
proof (cases "quotaExceededProviders s = {} \<and> 0 < slotsToProcess (clock 0) s
               \<and> jobsToStart (clock 0) s \<noteq> []")
  case True
  then have "inFlight (processQueue clock s) = inFlight s @ jobsToStart (clock 0) s"
    by (auto simp: processQueue_def Let_def startJobs_inFlight)
  then show ?thesis by blast
next
  case False
  then have "inFlight (processQueue clock s) = inFlight s @ []"
    by (auto simp: processQueue_def Let_def)
  then show ?thesis by (metis empty_set empty_subsetI)
qed

lemma tick_dispatchedKnown: "dispatchedKnown s \<Longrightarrow> dispatchedKnown (tick clock s)"
proof -
  assume a: "dispatchedKnown s"
  obtain js where "set js \<subseteq> set (jobsToStart (clock 0) s)"
    and "inFlight (processQueue clock s) = inFlight s @ js"
    using processQueue_inFlight by blast
  then have "dispatchedKnown (processQueue clock s)"
    using a jobsToStart_known by (auto simp: dispatchedKnown_def list_all_iff)
  with a show ?thesis by (simp add: tick_def)
qed

lemma onFulfilled_inFlight: "inFlight (onFulfilled d r s) = inFlight s"
  by (simp add: onFulfilled_def)

lemma onRejected_inFlight: "inFlight (onRejected d e s) = inFlight s"
  by (simp add: onRejected_def split: option.splits)

lemma settle_inFlight:
  "inFlight (settle k out s) =
     (if k < length (inFlight s) then take k (inFlight s) @ drop (Suc k) (inFlight s) else inFlight s)"
  by (simp add: settle_def Let_def onFulfilled_inFlight onRejected_inFlight split: outcome.splits)

lemma settle_dispatchedKnown: "dispatchedKnown s \<Longrightarrow> dispatchedKnown (settle k out s)"
  by (auto simp: dispatchedKnown_def settle_inFlight list_all_iff
      dest: in_set_takeD in_set_dropD)

lemma step_dispatchedKnown: "dispatchedKnown s \<Longrightarrow> dispatchedKnown (step s e)"
  by (cases e)
     (simp_all add: tick_dispatchedKnown settle_dispatchedKnown,
      simp_all add: dispatchedKnown_def handleAddJobs_def handleSaveApiKey_def
        handleRetryJob_def handleCancelJob_def)

lemma run_dispatchedKnown: "dispatchedKnown s \<Longrightarrow> dispatchedKnown (run s es)"
  unfolding run_def by (induction es arbitrary: s) (simp_all add: step_dispatchedKnown)

lemma reachable_dispatchedKnown: "reachable s \<Longrightarrow> dispatchedKnown s"
proof -
  have "dispatchedKnown (initial keys)" for keys
    by (simp add: dispatchedKnown_def initial_def)
  then show "reachable s \<Longrightarrow> dispatchedKnown s"
    unfolding reachable_def using run_dispatchedKnown by auto
qed

lemma settle_quota_error:
  assumes "k < length (inFlight s)" and "jobId (inFlight s ! k) \<notin> cancelledJobIds s"
    and "modelInfoOf (inFlight s ! k) = Some modelInfo"
  shows "quotaExceededProviders (settle k (Rejected (QuotaExceededError m)) s) =
           insert (provider modelInfo) (quotaExceededProviders s)"
    and "jobs (settle k (Rejected (QuotaExceededError m)) s) =
           map (\<lambda>j. if jobId j = jobId (inFlight s ! k)
                     then j\<lparr>status := Failed, error := Some m\<rparr> else j) (jobs s)"
  using assms by (simp_all add: settle_def onRejected_def Let_def)

text \<open>
  C3. While \<open>quotaExceededProviders\<close> is not empty, a tick changes nothing, so no job goes from
  Pending to Processing, whichever provider it needs. When a dispatch of a reachable state
  rejects with a \<open>QuotaExceededError\<close> and the id of its job is not in the cancelled set, the
  provider of the job's model is added to the set and every job with that id becomes Failed
  with the message of the error. No event other than \<open>handleSaveApiKey\<close> removes a provider
  from the set, so the halt lasts until the caller saves a key.
\<close>

theorem C3_quota_halt:
  "(quotaExceededProviders s \<noteq> {} \<longrightarrow> processQueue clock s = s \<and> tick clock s = s) \<and>
   (reachable s \<and> k < length (inFlight s) \<and> jobId (inFlight s ! k) \<notin> cancelledJobIds s \<longrightarrow>
      (\<exists>modelInfo. modelInfoOf (inFlight s ! k) = Some modelInfo \<and>
         quotaExceededProviders (settle k (Rejected (QuotaExceededError m)) s) =
           insert (provider modelInfo) (quotaExceededProviders s)) \<and>
      jobs (settle k (Rejected (QuotaExceededError m)) s) =
        map (\<lambda>j. if jobId j = jobId (inFlight s ! k)
                  then j\<lparr>status := Failed, error := Some m\<rparr> else j) (jobs s)) \<and>
   (list_all (\<lambda>e. \<not> isSaveApiKey e) es \<longrightarrow>
      quotaExceededProviders s \<subseteq> quotaExceededProviders (run s es))"
proof (intro conjI impI)
  assume "quotaExceededProviders s \<noteq> {}"
  then show "processQueue clock s = s" and "tick clock s = s"
    by (simp_all add: processQueue_halted tick_halted)
next
  assume a: "reachable s \<and> k < length (inFlight s) \<and> jobId (inFlight s ! k) \<notin> cancelledJobIds s"
  then have "dispatchedKnown s" by (simp add: reachable_dispatchedKnown)
  with a obtain modelInfo where mi: "modelInfoOf (inFlight s ! k) = Some modelInfo"
    by (auto simp: dispatchedKnown_def list_all_length)
  show "\<exists>modelInfo. modelInfoOf (inFlight s ! k) = Some modelInfo \<and>
         quotaExceededProviders (settle k (Rejected (QuotaExceededError m)) s) =
           insert (provider modelInfo) (quotaExceededProviders s)"
    using a mi settle_quota_error(1) [of k s modelInfo m] by simp
  show "jobs (settle k (Rejected (QuotaExceededError m)) s) =
        map (\<lambda>j. if jobId j = jobId (inFlight s ! k)
                  then j\<lparr>status := Failed, error := Some m\<rparr> else j) (jobs s)"
    using a mi settle_quota_error(2) [of k s modelInfo m] by simp
next
  assume "list_all (\<lambda>e. \<not> isSaveApiKey e) es"
  then show "quotaExceededProviders s \<subseteq> quotaExceededProviders (run s es)"
    by (rule run_quota)
qed

theorem C3_quota_halt_witness:
  "quotaExceededProviders quotaHit \<noteq> {} \<and>
   list_ex (\<lambda>j. status j = Pending) (jobs quotaHit) \<and>
   length (filter (\<lambda>j. status j = Processing) (jobs quotaHit)) = 3 \<and>
   processQueue (\<lambda>n. 70000) quotaHit = quotaHit \<and>
   tick (\<lambda>n. 70000) quotaHit = quotaHit \<and>
   reachable afterFive \<and> 0 < length (inFlight afterFive) \<and>
   jobId (inFlight afterFive ! 0) \<notin> cancelledJobIds afterFive \<and>
   quotaExceededProviders (settle 0 (Rejected (QuotaExceededError ''quota'')) afterFive) = {gemini} \<and>
   map status (jobs (settle 0 (Rejected (QuotaExceededError ''quota'')) afterFive)) =
     [Failed, Processing, Processing, Processing, Pending] \<and>
   map error (jobs (settle 0 (Rejected (QuotaExceededError ''quota'')) afterFive)) =
     [Some ''quota'', None, None, None, None] \<and>
   list_all (\<lambda>e. \<not> isSaveApiKey e) [Tick (\<lambda>n. 70000), RetryJob ''a'', Tick (\<lambda>n. 71000)] \<and>
   quotaExceededProviders quotaHit
     \<subseteq> quotaExceededProviders (run quotaHit [Tick (\<lambda>n. 70000), RetryJob ''a'', Tick (\<lambda>n. 71000)])"
proof -
  have q: "quotaExceededProviders quotaHit = {gemini}"
    and p: "map status (jobs quotaHit) = [Failed, Processing, Processing, Processing, Pending]"
    by (simp_all add: eval_defs example_defs)
  have p1: "list_ex (\<lambda>j. status j = Pending) (jobs quotaHit)"
    and p2: "length (filter (\<lambda>j. status j = Processing) (jobs quotaHit)) = 3"
    by (simp_all add: eval_defs example_defs)
  have a: "0 < length (inFlight afterFive)"
    "jobId (inFlight afterFive ! 0) \<notin> cancelledJobIds afterFive"
    "modelInfoOf (inFlight afterFive ! 0) = Some \<lparr>modelId = ''veo-2.0-generate-001'',
        modelName = ''Veo 2 (Gemini)'', provider = gemini\<rparr>"
    "quotaExceededProviders afterFive = {}"
    by (simp_all add: eval_defs example_defs)
  have st: "map status (jobs (settle 0 (Rejected (QuotaExceededError ''quota'')) afterFive)) =
     [Failed, Processing, Processing, Processing, Pending]"
    "map error (jobs (settle 0 (Rejected (QuotaExceededError ''quota'')) afterFive)) =
     [Some ''quota'', None, None, None, None]"
    by (simp_all add: eval_defs example_defs)
  have l: "list_all (\<lambda>e. \<not> isSaveApiKey e) [Tick (\<lambda>n. 70000), RetryJob ''a'', Tick (\<lambda>n. 71000)]"
    by (simp add: isSaveApiKey_def)
  note h = C3_quota_halt [of quotaHit "\<lambda>n. 70000" 0 "''quota''"
      "[Tick (\<lambda>n. 70000), RetryJob ''a'', Tick (\<lambda>n. 71000)]"]
  note g = C3_quota_halt [of afterFive "\<lambda>n. 70000" 0 "''quota''" "[]"]
  have "quotaExceededProviders (settle 0 (Rejected (QuotaExceededError ''quota'')) afterFive) = {gemini}"
    using g afterFive_reachable a by auto
  moreover have "processQueue (\<lambda>n. 70000) quotaHit = quotaHit \<and> tick (\<lambda>n. 70000) quotaHit = quotaHit"
    using h q by simp
  moreover have "quotaExceededProviders quotaHit
     \<subseteq> quotaExceededProviders (run quotaHit [Tick (\<lambda>n. 70000), RetryJob ''a'', Tick (\<lambda>n. 71000)])"
    using h l by blast
  ultimately show ?thesis
    using q p1 p2 afterFive_reachable a(1,2) st l by simp
qed

section \<open>Settlement of a cancelled job\<close>

lemma settle_cancelled:
  assumes "k < length (inFlight s)" and "jobId (inFlight s ! k) \<in> cancelledJobIds s"
  shows "settle k out s =
           s\<lparr>inFlight := take k (inFlight s) @ drop (Suc k) (inFlight s),
             cancelledJobIds := cancelledJobIds s - {jobId (inFlight s ! k)}\<rparr>"
  using assms by (cases out) (simp_all add: settle_def Let_def onFulfilled_def onRejected_def)

lemma handleCancelJob_fields:
  "cancelledJobIds (handleCancelJob jid s) = insert jid (cancelledJobIds s)"
  "inFlight (handleCancelJob jid s) = inFlight s"
  "quotaExceededProviders (handleCancelJob jid s) = quotaExceededProviders s"
  "jobStartTimestamps (handleCancelJob jid s) = jobStartTimestamps s"
  "apiKeys (handleCancelJob jid s) = apiKeys s"
  by (simp_all add: handleCancelJob_def)

lemma handleCancelJob_jobs:
  "jobs (handleCancelJob jid s) =
     map (\<lambda>j. if jobId j = jid then j\<lparr>status := Failed, error := Some CANCELLED_MESSAGE\<rparr> else j) (jobs s)"
  by (simp add: handleCancelJob_def)


section \<open>Cancellation\<close>

text \<open>
  C8. \<open>handleCancelJob\<close> checks nothing: it always puts the id in the cancelled set, and every
  job with that id becomes Failed with the cancelled message whatever its status was, all its
  other fields and all other jobs unchanged. In particular a Completed job becomes Failed.
\<close>

theorem C8_cancel_any_status:
  "cancelledJobIds (handleCancelJob jid s) = insert jid (cancelledJobIds s) \<and>
   step s (CancelJob jid) = handleCancelJob jid s \<and>
   length (jobs (handleCancelJob jid s)) = length (jobs s) \<and>
   (\<forall>i < length (jobs s).
      jobs (handleCancelJob jid s) ! i =
        (if jobId (jobs s ! i) = jid
         then (jobs s ! i)\<lparr>status := Failed, error := Some CANCELLED_MESSAGE\<rparr>
         else jobs s ! i)) \<and>
   (\<forall>j \<in> set (jobs s). jobId j = jid \<and> status j = Completed \<longrightarrow>
      j\<lparr>status := Failed, error := Some CANCELLED_MESSAGE\<rparr> \<in> set (jobs (handleCancelJob jid s)))"
proof (intro conjI ballI impI)
  show "cancelledJobIds (handleCancelJob jid s) = insert jid (cancelledJobIds s)"
    by (rule handleCancelJob_fields)
  show "step s (CancelJob jid) = handleCancelJob jid s"
    by simp
  show "length (jobs (handleCancelJob jid s)) = length (jobs s)"
    by (simp add: handleCancelJob_jobs)
  show "\<forall>i < length (jobs s).
      jobs (handleCancelJob jid s) ! i =
        (if jobId (jobs s ! i) = jid
         then (jobs s ! i)\<lparr>status := Failed, error := Some CANCELLED_MESSAGE\<rparr>
         else jobs s ! i)"
    by (simp add: handleCancelJob_jobs)
next
  fix j
  assume "j \<in> set (jobs s)" and "jobId j = jid \<and> status j = Completed"
  then have "(if jobId j = jid then j\<lparr>status := Failed, error := Some CANCELLED_MESSAGE\<rparr> else j)
               \<in> set (jobs (handleCancelJob jid s))"
    unfolding handleCancelJob_jobs set_map by (intro imageI)
  then show "j\<lparr>status := Failed, error := Some CANCELLED_MESSAGE\<rparr> \<in> set (jobs (handleCancelJob jid s))"
    using \<open>jobId j = jid \<and> status j = Completed\<close> by simp
qed

theorem C8_cancel_any_status_witness:
  "map status (jobs completedA) = [Completed, Processing, Processing, Processing, Pending] \<and>
   map status (jobs (handleCancelJob ''a'' completedA)) =
     [Failed, Processing, Processing, Processing, Pending] \<and>
   map status (jobs (handleCancelJob ''e'' completedA)) =
     [Completed, Processing, Processing, Processing, Failed] \<and>
   map error (jobs (handleCancelJob ''a'' completedA)) =
     [Some CANCELLED_MESSAGE, None, None, None, None] \<and>
   map resultUrl (jobs (handleCancelJob ''a'' completedA)) =
     [Some ''blob:1'', None, None, None, None] \<and>
   cancelledJobIds (handleCancelJob ''a'' completedA) = {''a''} \<and>
   cancelledJobIds (handleCancelJob ''zzz'' completedA) = {''zzz''} \<and>
   jobs completedA ! 0 \<in> set (jobs completedA) \<and>
   jobId (jobs completedA ! 0) = ''a'' \<and> status (jobs completedA ! 0) = Completed \<and>
   (jobs completedA ! 0)\<lparr>status := Failed, error := Some CANCELLED_MESSAGE\<rparr>
     \<in> set (jobs (handleCancelJob ''a'' completedA))"
proof -
  have c: "jobs completedA ! 0 \<in> set (jobs completedA)"
    "jobId (jobs completedA ! 0) = ''a''" "status (jobs completedA ! 0) = Completed"
    by (simp_all add: eval_defs example_defs)
  have m: "(jobs completedA ! 0)\<lparr>status := Failed, error := Some CANCELLED_MESSAGE\<rparr>
     \<in> set (jobs (handleCancelJob ''a'' completedA))"
    using C8_cancel_any_status [of "''a''" completedA] c by blast
  have a: "map status (jobs completedA) = [Completed, Processing, Processing, Processing, Pending]"
    "cancelledJobIds completedA = {}"
    by (simp_all add: eval_defs example_defs)
  have r: "map status (jobs (handleCancelJob ''a'' completedA)) =
     [Failed, Processing, Processing, Processing, Pending]"
    "map status (jobs (handleCancelJob ''e'' completedA)) =
     [Completed, Processing, Processing, Processing, Failed]"
    "map error (jobs (handleCancelJob ''a'' completedA)) =
     [Some CANCELLED_MESSAGE, None, None, None, None]"
    "map resultUrl (jobs (handleCancelJob ''a'' completedA)) =
     [Some ''blob:1'', None, None, None, None]"
    by (simp_all add: eval_defs example_defs)
  have "cancelledJobIds (handleCancelJob ''a'' completedA) = {''a''}"
    using C8_cancel_any_status [of "''a''" completedA] a(2) by simp
  moreover have "cancelledJobIds (handleCancelJob ''zzz'' completedA) = {''zzz''}"
    using C8_cancel_any_status [of "''zzz''" completedA] a(2) by simp
  ultimately show ?thesis
    using a r c m by simp
qed

section \<open>A quota error of a cancelled job\<close>

lemma processQueue_dispatches:
  "quotaExceededProviders s = {} \<Longrightarrow>
     inFlight (processQueue clock s) = inFlight s @ jobsToStart (clock 0) s"
proof (cases "0 < slotsToProcess (clock 0) s")
  case True
  assume "quotaExceededProviders s = {}"
  with True show ?thesis
    by (cases "jobsToStart (clock 0) s = []")
       (simp_all add: processQueue_def Let_def startJobs_inFlight)
next
  case False
  assume "quotaExceededProviders s = {}"
  moreover have "jobsToStart (clock 0) s = []"
    using False by (simp add: jobsToStart_eq)
  ultimately show ?thesis
    using False by (simp add: processQueue_def Let_def)
qed

lemma jobsToStart_cong:
  "jobs s' = jobs s \<Longrightarrow> apiKeys s' = apiKeys s \<Longrightarrow> jobStartTimestamps s' = jobStartTimestamps s
     \<Longrightarrow> jobsToStart now s' = jobsToStart now s"
  by (simp add: jobsToStart_def slotsToProcess_def)

text \<open>
  C10. When a dispatch rejects with a \<open>QuotaExceededError\<close> while the id of its job is in the
  cancelled set, \<open>quotaExceededProviders\<close> and the job list stay as they are: the check of the
  cancelled set comes first. So the set of jobs the next tick selects is the same as before,
  and when no provider was out of quota, the next tick dispatches all of them.
\<close>

theorem C10_cancelled_quota_error:
  "k < length (inFlight s) \<and> jobId (inFlight s ! k) \<in> cancelledJobIds s \<longrightarrow>
     quotaExceededProviders (settle k (Rejected (QuotaExceededError m)) s) = quotaExceededProviders s \<and>
     jobs (settle k (Rejected (QuotaExceededError m)) s) = jobs s \<and>
     jobsToStart now (settle k (Rejected (QuotaExceededError m)) s) = jobsToStart now s \<and>
     (quotaExceededProviders s = {} \<longrightarrow>
        inFlight (processQueue clock (settle k (Rejected (QuotaExceededError m)) s)) =
          inFlight (settle k (Rejected (QuotaExceededError m)) s) @ jobsToStart (clock 0) s)"
proof (intro impI)
  let ?s' = "settle k (Rejected (QuotaExceededError m)) s"
  assume a: "k < length (inFlight s) \<and> jobId (inFlight s ! k) \<in> cancelledJobIds s"
  then have e: "?s' =
           s\<lparr>inFlight := take k (inFlight s) @ drop (Suc k) (inFlight s),
             cancelledJobIds := cancelledJobIds s - {jobId (inFlight s ! k)}\<rparr>"
    by (simp add: settle_cancelled)
  have q: "quotaExceededProviders ?s' = quotaExceededProviders s" and j: "jobs ?s' = jobs s"
    by (simp_all add: e)
  have js: "jobsToStart now ?s' = jobsToStart now s" for now
    by (rule jobsToStart_cong) (simp_all add: e)
  have "inFlight (processQueue clock ?s') = inFlight ?s' @ jobsToStart (clock 0) s"
    if "quotaExceededProviders s = {}"
    using that processQueue_dispatches [of ?s' clock] by (simp only: q js)
  then show "quotaExceededProviders ?s' = quotaExceededProviders s \<and> jobs ?s' = jobs s \<and>
     jobsToStart now ?s' = jobsToStart now s \<and>
     (quotaExceededProviders s = {} \<longrightarrow>
        inFlight (processQueue clock ?s') = inFlight ?s' @ jobsToStart (clock 0) s)"
    using q j js by blast
qed

theorem C10_cancelled_quota_error_witness:
  "0 < length (inFlight cancelledA) \<and>
   jobId (inFlight cancelledA ! 0) \<in> cancelledJobIds cancelledA \<and>
   quotaExceededProviders cancelledA = {} \<and>
   quotaExceededProviders (settle 0 (Rejected (QuotaExceededError ''quota'')) cancelledA) = {} \<and>
   jobs (settle 0 (Rejected (QuotaExceededError ''quota'')) cancelledA) = jobs cancelledA \<and>
   map jobId (jobsToStart 70000 cancelledA) = [''e''] \<and>
   map jobId (inFlight (processQueue (\<lambda>n. 70000)
       (settle 0 (Rejected (QuotaExceededError ''quota'')) cancelledA))) = [''b'', ''c'', ''d'', ''e'']"
proof -
  let ?s' = "settle 0 (Rejected (QuotaExceededError ''quota'')) cancelledA"
  have a: "0 < length (inFlight cancelledA)"
    "jobId (inFlight cancelledA ! 0) \<in> cancelledJobIds cancelledA"
    "quotaExceededProviders cancelledA = {}"
    by (simp_all add: eval_defs example_defs)
  have e: "map jobId (jobsToStart 70000 cancelledA) = [''e'']"
    "map jobId (inFlight ?s') = [''b'', ''c'', ''d'']"
    by (simp_all add: eval_defs example_defs)
  note h = C10_cancelled_quota_error [of 0 cancelledA "''quota''" 70000 "\<lambda>n. 70000"]
  have "quotaExceededProviders ?s' = {}" and "jobs ?s' = jobs cancelledA"
    and "inFlight (processQueue (\<lambda>n. 70000) ?s') = inFlight ?s' @ jobsToStart 70000 cancelledA"
    using h a by simp_all
  then show ?thesis
    using a e by simp
qed

section \<open>Selection of the jobs to start\<close>

lemma slotsToProcess_eq:
  "slotsToProcess now s =
     min (4 - int (length (filter (\<lambda>j. status j = Processing) (jobs s))))
         (4 - int (length (filter (\<lambda>t. now - t < 60000) (jobStartTimestamps s))))"
  by (simp add: slotsToProcess_def pruned_def Let_def MAX_CONCURRENT_JOBS_def RATE_LIMIT_COUNT_def
      RATE_LIMIT_WINDOW_MS_def)

lemma processQueue_no_slots:
  assumes "quotaExceededProviders s = {}" and "slotsToProcess (clock 0) s \<le> 0"
  shows "processQueue clock s = s\<lparr>jobStartTimestamps := pruned (clock 0) (jobStartTimestamps s)\<rparr>"
  using assms by (simp add: processQueue_def Let_def)

lemma processQueue_started_jobs:
  assumes "quotaExceededProviders s = {}"
  shows "jobs (processQueue clock s) =
     map (\<lambda>j. if jobId j \<in> jobId ` set (jobsToStart (clock 0) s)
               then j\<lparr>status := Processing\<rparr> else j) (jobs s)"
proof (cases "0 < slotsToProcess (clock 0) s \<and> jobsToStart (clock 0) s \<noteq> []")
  case True
  with assms show ?thesis
    by (simp add: processQueue_def Let_def startJobs_jobs)
next
  case False
  then have e: "jobsToStart (clock 0) s = []"
    by (auto simp: jobsToStart_eq)
  have "jobs (processQueue clock s) = jobs s"
    using assms False by (auto simp: processQueue_def Let_def)
  then show ?thesis by (simp add: e)
qed

lemma processQueue_started_timestamps:
  assumes "quotaExceededProviders s = {}"
  shows "jobStartTimestamps (processQueue clock s) =
     pruned (clock 0) (jobStartTimestamps s)
       @ map (\<lambda>i. clock (Suc i)) [0..<length (jobsToStart (clock 0) s)]"
proof (cases "0 < slotsToProcess (clock 0) s \<and> jobsToStart (clock 0) s \<noteq> []")
  case True
  with assms show ?thesis
    by (simp add: processQueue_def Let_def startJobs_timestamps)
next
  case False
  then have e: "jobsToStart (clock 0) s = []"
    by (auto simp: jobsToStart_eq)
  have "jobStartTimestamps (processQueue clock s) = pruned (clock 0) (jobStartTimestamps s)"
    using assms False by (auto simp: processQueue_def Let_def)
  then show ?thesis by (simp add: e)
qed

lemma jobsToStart_subset: "set (jobsToStart now s) \<subseteq> set (jobs s)"
  by (auto simp: jobsToStart_eq dest: in_set_takeD)


lemma jobsToStart_credential: "d \<in> set (jobsToStart now s) \<Longrightarrow> hasCredential (apiKeys s) d"
  by (auto simp: jobsToStart_eq dest: in_set_takeD)

lemma selected_by_id:
  assumes "distinct (map jobId (jobs s))" and "j \<in> set (jobs s)"
  shows "jobId j \<in> jobId ` set (jobsToStart now s) \<longleftrightarrow> j \<in> set (jobsToStart now s)"
proof
  assume "jobId j \<in> jobId ` set (jobsToStart now s)"
  then obtain d where d: "d \<in> set (jobsToStart now s)" and e: "jobId j = jobId d"
    by blast
  have "d \<in> set (jobs s)"
    using d jobsToStart_subset by blast
  then have "j = d"
    using assms e by (meson distinct_map inj_onD)
  with d show "j \<in> set (jobsToStart now s)" by simp
next
  assume "j \<in> set (jobsToStart now s)"
  then show "jobId j \<in> jobId ` set (jobsToStart now s)" by blast
qed

lemma reachable_distinct: "reachable s \<Longrightarrow> distinct (map jobId (jobs s))"
  using reachable_budget by (simp add: budget_def)

text \<open>
  C5. A tick that is not halted computes \<open>slotsToProcess\<close> as the minimum of 4 minus the number of
  Processing jobs and 4 minus the number of recorded timestamps less than 60 000 ms old. When
  that is 0 or less, no job starts: the job list and the dispatches in flight stay as they are
  and the timestamps are only pruned. Otherwise the jobs started are the first
  \<open>slotsToProcess\<close> Pending jobs with a credential, in the order of the job list, which is the
  order of submission; they are at most \<open>slotsToProcess\<close> many; and in this same tick each one
  is dispatched, has one timestamp pushed after the pruned ones, and every job with its id
  becomes Processing, which in a reachable state is that job alone.
\<close>

theorem C5_tick_selection:
  "quotaExceededProviders s = {} \<longrightarrow>
     slotsToProcess (clock 0) s =
       min (4 - int (length (filter (\<lambda>j. status j = Processing) (jobs s))))
           (4 - int (length (filter (\<lambda>t. clock 0 - t < 60000) (jobStartTimestamps s)))) \<and>
     (slotsToProcess (clock 0) s \<le> 0 \<longrightarrow>
        jobs (processQueue clock s) = jobs s \<and>
        inFlight (processQueue clock s) = inFlight s \<and>
        jobStartTimestamps (processQueue clock s) = pruned (clock 0) (jobStartTimestamps s)) \<and>
     (0 < slotsToProcess (clock 0) s \<longrightarrow>
        jobsToStart (clock 0) s =
          take (nat (slotsToProcess (clock 0) s))
            (filter (hasCredential (apiKeys s)) (filter (\<lambda>j. status j = Pending) (jobs s))) \<and>
        int (length (jobsToStart (clock 0) s)) \<le> slotsToProcess (clock 0) s \<and>
        inFlight (processQueue clock s) = inFlight s @ jobsToStart (clock 0) s \<and>
        jobStartTimestamps (processQueue clock s) =
          pruned (clock 0) (jobStartTimestamps s)
            @ map (\<lambda>i. clock (Suc i)) [0..<length (jobsToStart (clock 0) s)] \<and>
        jobs (processQueue clock s) =
          map (\<lambda>j. if jobId j \<in> jobId ` set (jobsToStart (clock 0) s)
                    then j\<lparr>status := Processing\<rparr> else j) (jobs s) \<and>
        (reachable s \<longrightarrow>
           jobs (processQueue clock s) =
             map (\<lambda>j. if j \<in> set (jobsToStart (clock 0) s)
                       then j\<lparr>status := Processing\<rparr> else j) (jobs s)))"
proof (intro impI conjI)
  assume q: "quotaExceededProviders s = {}"
  show "slotsToProcess (clock 0) s =
       min (4 - int (length (filter (\<lambda>j. status j = Processing) (jobs s))))
           (4 - int (length (filter (\<lambda>t. clock 0 - t < 60000) (jobStartTimestamps s))))"
    by (rule slotsToProcess_eq)
  {
    assume n: "slotsToProcess (clock 0) s \<le> 0"
    have e: "processQueue clock s = s\<lparr>jobStartTimestamps := pruned (clock 0) (jobStartTimestamps s)\<rparr>"
      using q n by (rule processQueue_no_slots [of s clock])
    show "jobs (processQueue clock s) = jobs s"
      by (subst e) simp
    show "inFlight (processQueue clock s) = inFlight s"
      by (subst e) simp
    show "jobStartTimestamps (processQueue clock s) = pruned (clock 0) (jobStartTimestamps s)"
      by (subst e) simp
  }
  {
    assume p: "0 < slotsToProcess (clock 0) s"
    show "jobsToStart (clock 0) s =
          take (nat (slotsToProcess (clock 0) s))
            (filter (hasCredential (apiKeys s)) (filter (\<lambda>j. status j = Pending) (jobs s)))"
      by (rule jobsToStart_eq)
    show "int (length (jobsToStart (clock 0) s)) \<le> slotsToProcess (clock 0) s"
      using length_jobsToStart [of "clock 0" s] p by simp
    show "inFlight (processQueue clock s) = inFlight s @ jobsToStart (clock 0) s"
      by (rule processQueue_dispatches [OF q])
    show "jobStartTimestamps (processQueue clock s) =
          pruned (clock 0) (jobStartTimestamps s)
            @ map (\<lambda>i. clock (Suc i)) [0..<length (jobsToStart (clock 0) s)]"
      by (rule processQueue_started_timestamps [OF q])
    show j: "jobs (processQueue clock s) =
          map (\<lambda>j. if jobId j \<in> jobId ` set (jobsToStart (clock 0) s)
                    then j\<lparr>status := Processing\<rparr> else j) (jobs s)"
      by (rule processQueue_started_jobs [OF q])
    {
      assume r: "reachable s"
      show "jobs (processQueue clock s) =
             map (\<lambda>j. if j \<in> set (jobsToStart (clock 0) s)
                       then j\<lparr>status := Processing\<rparr> else j) (jobs s)"
        unfolding j
        by (rule map_cong [OF refl]) (simp add: selected_by_id [OF reachable_distinct [OF r]])
    }
  }
qed

lemmas example_defs2 = soraTemplate_def mixedState_def fifoState_def veoTemplate_def geminiKey_def

lemma fifoState_reachable: "reachable fifoState"
  unfolding fifoState_def reachable_def by blast

lemma mixedState_reachable: "reachable mixedState"
  unfolding mixedState_def reachable_def by blast

theorem C5_tick_selection_witness:
  "quotaExceededProviders fifoState = {} \<and> reachable fifoState \<and>
   slotsToProcess 70000 fifoState = 1 \<and>
   map status (jobs fifoState) = [Failed, Processing, Processing, Processing, Pending, Pending] \<and>
   map jobId (jobsToStart 70000 fifoState) = [''e''] \<and>
   map status (jobs (processQueue (\<lambda>n. 70000 + int n) fifoState)) =
     [Failed, Processing, Processing, Processing, Processing, Pending] \<and>
   map jobId (inFlight (processQueue (\<lambda>n. 70000 + int n) fifoState)) = [''a'', ''b'', ''c'', ''d'', ''e''] \<and>
   jobStartTimestamps (processQueue (\<lambda>n. 70000 + int n) fifoState) = [70001] \<and>
   slotsToProcess 2000 fifoState = 0 \<and>
   jobs (processQueue (\<lambda>n. 2000) fifoState) = jobs fifoState \<and>
   inFlight (processQueue (\<lambda>n. 2000) fifoState) = inFlight fifoState"
proof -
  let ?c = "\<lambda>n. 70000 + int n"
  have a: "quotaExceededProviders fifoState = {}"
    "map status (jobs fifoState) = [Failed, Processing, Processing, Processing, Pending, Pending]"
    "map jobId (jobs fifoState) = [''a'', ''b'', ''c'', ''d'', ''e'', ''f'']"
    "map jobId (inFlight fifoState) = [''a'', ''b'', ''c'', ''d'']"
    "jobStartTimestamps fifoState = [1000, 1000, 1000, 1000]"
    by (simp_all add: eval_defs example_defs2)
  have b: "slotsToProcess 70000 fifoState = 1" "slotsToProcess 2000 fifoState = 0"
    "map jobId (jobsToStart 70000 fifoState) = [''e'']"
    "pruned 70000 (jobStartTimestamps fifoState) = []"
    "map status (jobs (processQueue ?c fifoState)) =
       [Failed, Processing, Processing, Processing, Processing, Pending]"
    by (simp_all add: eval_defs example_defs2)
  note h = C5_tick_selection [of fifoState ?c]
  note g = C5_tick_selection [of fifoState "\<lambda>n. 2000"]
  have l: "length (jobsToStart 70000 fifoState) = 1"
    using b(3) by (metis length_map length_Cons list.size(3) One_nat_def)
  have "inFlight (processQueue ?c fifoState) = inFlight fifoState @ jobsToStart 70000 fifoState"
    and "jobStartTimestamps (processQueue ?c fifoState) =
          pruned 70000 (jobStartTimestamps fifoState) @ map (\<lambda>i. ?c (Suc i)) [0..<length (jobsToStart 70000 fifoState)]"
    using h a(1) b(1) by simp_all
  then have "map jobId (inFlight (processQueue ?c fifoState)) = [''a'', ''b'', ''c'', ''d'', ''e'']"
    and "jobStartTimestamps (processQueue ?c fifoState) = [70001]"
    using a(4) b(3,4) l by simp_all
  moreover have "jobs (processQueue (\<lambda>n. 2000) fifoState) = jobs fifoState"
    and "inFlight (processQueue (\<lambda>n. 2000) fifoState) = inFlight fifoState"
    using g a(1) b(2) by simp_all
  ultimately show ?thesis
    using a(1,2) b fifoState_reachable by simp
qed

section \<open>Jobs without a credential\<close>

lemma noCredential_not_has: "noCredential keys j \<Longrightarrow> \<not> hasCredential keys j"
  by (auto simp: noCredential_def hasCredential_def split: option.splits)

lemma filter_without:
  "\<not> P j \<Longrightarrow> filter P (filter (\<lambda>x. x \<noteq> j) xs) = filter P xs"
  by (induction xs) auto

lemma filter_swap: "filter P (filter Q xs) = filter Q (filter P xs)"
  by (induction xs) auto

lemma jobsToStart_without:
  assumes "status j = Pending" and "\<not> hasCredential (apiKeys s) j"
  shows "jobsToStart now (withoutJob j s) = jobsToStart now s"
proof -
  have w: "jobs (withoutJob j s) = filter (\<lambda>x. x \<noteq> j) (jobs s)"
    "jobStartTimestamps (withoutJob j s) = jobStartTimestamps s"
    "apiKeys (withoutJob j s) = apiKeys s"
    by (simp_all add: withoutJob_def)
  have p: "filter (\<lambda>x. status x = Processing) (filter (\<lambda>x. x \<noteq> j) (jobs s))
             = filter (\<lambda>x. status x = Processing) (jobs s)"
    by (rule filter_without) (simp add: assms(1))
  have fw: "filter (hasCredential (apiKeys s)) (filter (\<lambda>x. x \<noteq> j) (jobs s))
              = filter (hasCredential (apiKeys s)) (jobs s)"
    using assms(2) by (rule filter_without)
  have sl: "slotsToProcess now (withoutJob j s) = slotsToProcess now s"
    unfolding slotsToProcess_def w p by (rule refl)
  have "filter (hasCredential (apiKeys s)) (filter (\<lambda>x. status x = Pending) (filter (\<lambda>x. x \<noteq> j) (jobs s)))
      = filter (\<lambda>x. status x = Pending) (filter (hasCredential (apiKeys s)) (filter (\<lambda>x. x \<noteq> j) (jobs s)))"
    by (rule filter_swap)
  also have "\<dots> = filter (\<lambda>x. status x = Pending) (filter (hasCredential (apiKeys s)) (jobs s))"
    by (simp only: fw)
  also have "\<dots> = filter (hasCredential (apiKeys s)) (filter (\<lambda>x. status x = Pending) (jobs s))"
    by (rule filter_swap)
  finally show ?thesis
    unfolding jobsToStart_eq sl w by (simp only:)
qed

text \<open>
  C6. In a reachable state, a Pending job whose model is known but whose provider has no key
  (missing, \<open>null\<close> or empty) is not among the jobs a tick starts, and the tick leaves it in
  its place in the list exactly as it was. It takes no slot: the jobs selected are the same as
  when the job is not in the list at all, namely the first \<open>slotsToProcess\<close> Pending jobs that
  do have a credential, so a later job with a key is started in its place.
\<close>

theorem C6_no_credential:
  assumes "reachable s" and "j \<in> set (jobs s)" and "status j = Pending"
    and "noCredential (apiKeys s) j"
  shows "j \<notin> set (jobsToStart (clock 0) s) \<and>
         length (jobs (processQueue clock s)) = length (jobs s) \<and>
         (\<forall>i < length (jobs s). jobs s ! i = j \<longrightarrow>
            jobs (processQueue clock s) ! i = j \<and> jobs (tick clock s) ! i = j) \<and>
         jobsToStart (clock 0) (withoutJob j s) = jobsToStart (clock 0) s \<and>
         jobsToStart (clock 0) s =
           take (nat (slotsToProcess (clock 0) s))
             (filter (hasCredential (apiKeys s)) (filter (\<lambda>j. status j = Pending) (jobs s)))"
proof (intro conjI allI impI)
  have nc: "\<not> hasCredential (apiKeys s) j"
    by (rule noCredential_not_has [OF assms(4)])
  show n: "j \<notin> set (jobsToStart (clock 0) s)"
    using nc jobsToStart_credential by blast
  have id: "jobId j \<notin> jobId ` set (jobsToStart (clock 0) s)"
    using n selected_by_id [OF reachable_distinct [OF assms(1)] assms(2)] by simp
  have pq: "\<exists>ids. jobs (processQueue clock s) =
     map (\<lambda>j. if jobId j \<in> ids then j\<lparr>status := Processing\<rparr> else j) (jobs s)"
    by (rule processQueue_jobs)
  then show l: "length (jobs (processQueue clock s)) = length (jobs s)"
    by auto
  show "jobsToStart (clock 0) (withoutJob j s) = jobsToStart (clock 0) s"
    by (rule jobsToStart_without [OF assms(3) nc])
  show "jobsToStart (clock 0) s =
           take (nat (slotsToProcess (clock 0) s))
             (filter (hasCredential (apiKeys s)) (filter (\<lambda>j. status j = Pending) (jobs s)))"
    by (rule jobsToStart_eq)
  fix i
  assume i: "i < length (jobs s)" and e: "jobs s ! i = j"
  show p: "jobs (processQueue clock s) ! i = j"
  proof (cases "quotaExceededProviders s = {}")
    case True
    show ?thesis
      unfolding processQueue_started_jobs [OF True] using i e id by simp
  next
    case False
    then show ?thesis using e by (simp add: processQueue_halted)
  qed
  show "jobs (tick clock s) ! i = j"
    using p e by (simp add: tick_def)
qed

theorem C6_no_credential_witness:
  "reachable mixedState \<and> jobs mixedState ! 0 \<in> set (jobs mixedState) \<and>
   status (jobs mixedState ! 0) = Pending \<and>
   noCredential (apiKeys mixedState) (jobs mixedState ! 0) \<and>
   jobs mixedState ! 0 \<notin> set (jobsToStart 1000 mixedState) \<and>
   jobs (processQueue (\<lambda>n. 1000) mixedState) ! 0 = jobs mixedState ! 0 \<and>
   jobs (tick (\<lambda>n. 1000) mixedState) ! 0 = jobs mixedState ! 0 \<and>
   jobsToStart 1000 (withoutJob (jobs mixedState ! 0) mixedState) = jobsToStart 1000 mixedState \<and>
   slotsToProcess 1000 mixedState = 4 \<and>
   map jobId (jobsToStart 1000 mixedState) = [''t''] \<and>
   map status (jobs (tick (\<lambda>n. 1000) mixedState)) = [Pending, Pending, Pending, Pending, Processing]"
proof -
  have a: "jobs mixedState ! 0 \<in> set (jobs mixedState)"
    "status (jobs mixedState ! 0) = Pending"
    "noCredential (apiKeys mixedState) (jobs mixedState ! 0)"
    "0 < length (jobs mixedState)"
    by (simp_all add: eval_defs example_defs2 noCredential_def)
  have b: "slotsToProcess 1000 mixedState = 4"
    "map jobId (jobsToStart 1000 mixedState) = [''t'']"
    "map status (jobs (tick (\<lambda>n. 1000) mixedState)) = [Pending, Pending, Pending, Pending, Processing]"
    by (simp_all add: eval_defs example_defs2)
  note h = C6_no_credential [OF mixedState_reachable a(1,2,3), of "\<lambda>n. 1000"]
  have "jobs mixedState ! 0 \<notin> set (jobsToStart 1000 mixedState)"
    and "jobs (processQueue (\<lambda>n. 1000) mixedState) ! 0 = jobs mixedState ! 0"
    and "jobs (tick (\<lambda>n. 1000) mixedState) ! 0 = jobs mixedState ! 0"
    and "jobsToStart 1000 (withoutJob (jobs mixedState ! 0) mixedState) = jobsToStart 1000 mixedState"
    using h a(4) by blast+
  then show ?thesis
    using a(1,2,3) b mixedState_reachable by simp
qed

section \<open>A mark left by cancelling a Pending job\<close>

lemma settle_cancelledJobIds:
  "cancelledJobIds (settle k out s) =
     (if k < length (inFlight s) then cancelledJobIds s - {jobId (inFlight s ! k)}
      else cancelledJobIds s)"
proof (cases "k < length (inFlight s)")
  case False
  then show ?thesis by (simp add: settle_def)
next
  case True
  show ?thesis
  proof (cases "jobId (inFlight s ! k) \<in> cancelledJobIds s")
    case c: True
    show ?thesis
      by (subst settle_cancelled [OF True c]) (simp add: True)
  next
    case c: False
    then show ?thesis
      using True
      by (cases out) (simp_all add: settle_def Let_def onFulfilled_def onRejected_def split: option.splits)
  qed
qed

lemma processQueue_cancelledJobIds: "cancelledJobIds (processQueue clock s) = cancelledJobIds s"
  by (simp add: processQueue_def Let_def startJobs_others)

lemma step_keeps_mark:
  assumes "jid \<in> cancelledJobIds s" and "jid \<notin> jobId ` set (inFlight s)"
  shows "jid \<in> cancelledJobIds (step s e)"
proof (cases e)
  case (Tick clock)
  then show ?thesis using assms(1) by (simp add: tick_def processQueue_cancelledJobIds)
next
  case (AddJobs ts us)
  then show ?thesis using assms(1) by (simp add: handleAddJobs_def)
next
  case (SaveApiKey p k)
  then show ?thesis using assms(1) by (simp add: handleSaveApiKey_def)
next
  case (RetryJob x)
  then show ?thesis using assms(1) by (simp add: handleRetryJob_def)
next
  case (CancelJob x)
  then show ?thesis using assms(1) by (simp add: handleCancelJob_fields)
next
  case (Settle k out)
  have "jobId (inFlight s ! k) \<noteq> jid" if "k < length (inFlight s)"
    using that assms(2) nth_mem by blast
  then show ?thesis
    using assms(1) by (auto simp: Settle settle_cancelledJobIds)
qed

lemma started_are_processing:
  assumes "x \<in> set (map (\<lambda>j. if jobId j \<in> ids then j\<lparr>status := Processing\<rparr> else j) js)"
    and "jobId x \<in> ids"
  shows "status x = Processing"
proof -
  obtain y where y: "y \<in> set js"
    and x: "x = (if jobId y \<in> ids then y\<lparr>status := Processing\<rparr> else y)"
    using assms(1) unfolding set_map by blast
  show ?thesis
  proof (cases "jobId y \<in> ids")
    case True
    then show ?thesis by (simp add: x)
  next
    case False
    then have "jobId x \<notin> ids" by (simp add: x)
    with assms(2) show ?thesis by simp
  qed
qed

text \<open>
  C9. \<open>handleCancelJob\<close> puts the id in the cancelled set; when no dispatch of that id is in
  flight, as for a Pending job, no event that follows takes the mark out. The mark is still
  there after a manual retry and the tick after it. When that tick starts the job, the
  settlement of its dispatch, whatever the outcome, only consumes the mark: the job list is
  unchanged and every job with that id stays Processing.
\<close>

theorem C9_stale_mark:
  "jid \<in> cancelledJobIds (handleCancelJob jid s) \<and>
   (jid \<notin> jobId ` set (inFlight s) \<longrightarrow> jid \<in> cancelledJobIds (step (handleCancelJob jid s) e)) \<and>
   jid \<in> cancelledJobIds (cancelRetryTick jid clock s) \<and>
   (quotaExceededProviders s = {} \<and>
    jid \<in> jobId ` set (jobsToStart (clock 0) (handleRetryJob jid (handleCancelJob jid s))) \<and>
    k < length (inFlight (cancelRetryTick jid clock s)) \<and>
    jobId (inFlight (cancelRetryTick jid clock s) ! k) = jid \<longrightarrow>
      jobs (settle k out (cancelRetryTick jid clock s)) = jobs (cancelRetryTick jid clock s) \<and>
      jid \<notin> cancelledJobIds (settle k out (cancelRetryTick jid clock s)) \<and>
      (\<forall>j \<in> set (jobs (settle k out (cancelRetryTick jid clock s))).
         jobId j = jid \<longrightarrow> status j = Processing))"
proof (intro conjI impI)
  let ?s2 = "handleRetryJob jid (handleCancelJob jid s)"
  let ?s3 = "cancelRetryTick jid clock s"
  show m1: "jid \<in> cancelledJobIds (handleCancelJob jid s)"
    by (simp add: handleCancelJob_fields)
  have m2: "jid \<in> cancelledJobIds ?s2"
    by (simp add: handleRetryJob_def handleCancelJob_fields)
  show m3: "jid \<in> cancelledJobIds ?s3"
    using m2 by (simp add: cancelRetryTick_def processQueue_cancelledJobIds)
  {
    assume "jid \<notin> jobId ` set (inFlight s)"
    then have "jid \<notin> jobId ` set (inFlight (handleCancelJob jid s))"
      by (simp add: handleCancelJob_fields)
    with m1 show "jid \<in> cancelledJobIds (step (handleCancelJob jid s) e)"
      by (rule step_keeps_mark)
  }
  {
    assume a: "quotaExceededProviders s = {} \<and>
      jid \<in> jobId ` set (jobsToStart (clock 0) ?s2) \<and>
      k < length (inFlight ?s3) \<and> jobId (inFlight ?s3 ! k) = jid"
    have q: "quotaExceededProviders ?s2 = {}"
      using a by (simp add: handleRetryJob_def handleCancelJob_fields)
    have j3: "jobs ?s3 =
       map (\<lambda>j. if jobId j \<in> jobId ` set (jobsToStart (clock 0) ?s2)
                 then j\<lparr>status := Processing\<rparr> else j) (jobs ?s2)"
      unfolding cancelRetryTick_def by (rule processQueue_started_jobs [OF q])
    have k: "k < length (inFlight ?s3)" and c: "jobId (inFlight ?s3 ! k) \<in> cancelledJobIds ?s3"
      using a m3 by simp_all
    have e: "settle k out ?s3 =
           ?s3\<lparr>inFlight := take k (inFlight ?s3) @ drop (Suc k) (inFlight ?s3),
               cancelledJobIds := cancelledJobIds ?s3 - {jobId (inFlight ?s3 ! k)}\<rparr>"
      by (rule settle_cancelled [OF k c])
    show j4: "jobs (settle k out ?s3) = jobs ?s3"
      by (subst e) simp
    have "cancelledJobIds (settle k out ?s3) = cancelledJobIds ?s3 - {jobId (inFlight ?s3 ! k)}"
      by (subst e) simp
    then show "jid \<notin> cancelledJobIds (settle k out ?s3)"
      using a by simp
    show "\<forall>j \<in> set (jobs (settle k out ?s3)). jobId j = jid \<longrightarrow> status j = Processing"
      unfolding j4 j3 using a started_are_processing by blast
  }
qed

lemmas example_defs3 =
  oneJob_def completeThenCancel_def lateSettlements_def fiveJobs_def veoTemplate_def geminiKey_def

theorem C9_stale_mark_witness:
  "''a'' \<notin> jobId ` set (inFlight oneJob) \<and>
   map status (jobs oneJob) = [Pending] \<and>
   ''a'' \<in> cancelledJobIds (step (handleCancelJob ''a'' oneJob) (Tick (\<lambda>n. 500))) \<and>
   quotaExceededProviders oneJob = {} \<and>
   ''a'' \<in> jobId ` set (jobsToStart 1000 (handleRetryJob ''a'' (handleCancelJob ''a'' oneJob))) \<and>
   0 < length (inFlight (cancelRetryTick ''a'' (\<lambda>n. 1000) oneJob)) \<and>
   jobId (inFlight (cancelRetryTick ''a'' (\<lambda>n. 1000) oneJob) ! 0) = ''a'' \<and>
   map status (jobs (settle 0 (Resolved \<lparr>newResultUrl = Some ''blob:1'', newResultUrls = None\<rparr>)
     (cancelRetryTick ''a'' (\<lambda>n. 1000) oneJob))) = [Processing] \<and>
   inFlight (settle 0 (Resolved \<lparr>newResultUrl = Some ''blob:1'', newResultUrls = None\<rparr>)
     (cancelRetryTick ''a'' (\<lambda>n. 1000) oneJob)) = [] \<and>
   ''a'' \<notin> cancelledJobIds (settle 0 (Resolved \<lparr>newResultUrl = Some ''blob:1'', newResultUrls = None\<rparr>)
     (cancelRetryTick ''a'' (\<lambda>n. 1000) oneJob))"
proof -
  let ?out = "Resolved \<lparr>newResultUrl = Some ''blob:1'', newResultUrls = None\<rparr>"
  let ?s3 = "cancelRetryTick ''a'' (\<lambda>n. 1000) oneJob"
  have a: "''a'' \<notin> jobId ` set (inFlight oneJob)"
    "map status (jobs oneJob) = [Pending]"
    "quotaExceededProviders oneJob = {}"
    "''a'' \<in> jobId ` set (jobsToStart 1000 (handleRetryJob ''a'' (handleCancelJob ''a'' oneJob)))"
    "0 < length (inFlight ?s3)"
    "jobId (inFlight ?s3 ! 0) = ''a''"
    by (simp_all add: eval_defs example_defs3 cancelRetryTick_def)
  have b: "map status (jobs (settle 0 ?out ?s3)) = [Processing]"
    "inFlight (settle 0 ?out ?s3) = []"
    by (simp_all add: eval_defs example_defs3 cancelRetryTick_def)
  note h = C9_stale_mark [of "''a''" oneJob "Tick (\<lambda>n. 500)" "\<lambda>n. 1000" 0 ?out]
  have "''a'' \<in> cancelledJobIds (step (handleCancelJob ''a'' oneJob) (Tick (\<lambda>n. 500)))"
    and "''a'' \<notin> cancelledJobIds (settle 0 ?out ?s3)"
    using h a(1,3,4,5,6) by blast+
  then show ?thesis
    using a b by simp
qed

section \<open>The later settlement of a cancelled job\<close>





















section \<open>Results and the status Completed\<close>































end
